theory Spec2Isabelle
  imports Main "HOL-Library.Char_ord" "HOL-Library.List_Lexorder"
begin

section \<open>JavaScript strings\<close>

text \<open>
  A string is the UTF-8 text of its characters (the text of the request, of a database
  column, of a gateway message), so a character outside ASCII is a sequence of two to
  four bytes. The classes of the language are classes of characters: the white space of
  \<open>trim\<close> and of \<open>\s\<close> is the white space and the line terminators of ECMAScript, that
  is tab, line feed, vertical tab, form feed, carriage return, space, U+00A0, U+1680,
  U+2000 to U+200A, U+2028, U+2029, U+202F, U+205F, U+3000 and U+FEFF; the line
  terminators, which \<open>.\<close> does not match, are line feed, carriage return, U+2028 and
  U+2029. Each is given by its bytes. In UTF-8 the bytes of a character occur nowhere
  but at that character, so looking for them at the head of a text, or at its end, finds
  the character.
\<close>

definition white_space :: "string list" where
  "white_space =
     [[CHR 0x09], [CHR 0x0A], [CHR 0x0B], [CHR 0x0C], [CHR 0x0D], [CHR 0x20],
      [CHR 0xC2, CHR 0xA0],
      [CHR 0xE1, CHR 0x9A, CHR 0x80],
      [CHR 0xE2, CHR 0x80, CHR 0x80], [CHR 0xE2, CHR 0x80, CHR 0x81],
      [CHR 0xE2, CHR 0x80, CHR 0x82], [CHR 0xE2, CHR 0x80, CHR 0x83],
      [CHR 0xE2, CHR 0x80, CHR 0x84], [CHR 0xE2, CHR 0x80, CHR 0x85],
      [CHR 0xE2, CHR 0x80, CHR 0x86], [CHR 0xE2, CHR 0x80, CHR 0x87],
      [CHR 0xE2, CHR 0x80, CHR 0x88], [CHR 0xE2, CHR 0x80, CHR 0x89],
      [CHR 0xE2, CHR 0x80, CHR 0x8A],
      [CHR 0xE2, CHR 0x80, CHR 0xA8], [CHR 0xE2, CHR 0x80, CHR 0xA9],
      [CHR 0xE2, CHR 0x80, CHR 0xAF],
      [CHR 0xE2, CHR 0x81, CHR 0x9F],
      [CHR 0xE3, CHR 0x80, CHR 0x80],
      [CHR 0xEF, CHR 0xBB, CHR 0xBF]]"

definition line_terminators :: "string list" where
  "line_terminators =
     [[CHR 0x0A], [CHR 0x0D], [CHR 0xE2, CHR 0x80, CHR 0xA8], [CHR 0xE2, CHR 0x80, CHR 0xA9]]"

definition startsWith :: "string \<Rightarrow> string \<Rightarrow> bool" where
  "startsWith p s = (take (length p) s = p)"

text \<open>
  The number of bytes of the character of the class \<open>ps\<close> at the head of \<open>s\<close>, and \<open>0\<close>
  when the text does not start with one.
\<close>

definition prefix_len :: "string list \<Rightarrow> string \<Rightarrow> nat" where
  "prefix_len ps s = (case find (\<lambda>p. startsWith p s) ps of None \<Rightarrow> 0 | Some p \<Rightarrow> length p)"

definition space_len :: "string \<Rightarrow> nat" where
  "space_len s = prefix_len white_space s"

fun strip_prefixes :: "string list \<Rightarrow> string \<Rightarrow> string" where
  "strip_prefixes ps [] = []"
| "strip_prefixes ps (c # cs) =
     (if prefix_len ps (c # cs) = 0 then c # cs
      else strip_prefixes ps (drop (prefix_len ps (c # cs) - 1) cs))"

text \<open>
  \<open>trimStart\<close>, \<open>trimEnd\<close> and \<open>trim\<close>: the white space characters at the head of the
  text are removed, then those at its end, which are read backwards.
\<close>

definition trimStart :: "string \<Rightarrow> string" where
  "trimStart s = strip_prefixes white_space s"

definition trimEnd :: "string \<Rightarrow> string" where
  "trimEnd s = rev (strip_prefixes (map rev white_space) (rev s))"

definition trim :: "string \<Rightarrow> string" where
  "trim s = trimEnd (trimStart s)"

text \<open>
  \<open>indexOf\<close> and \<open>lastIndexOf\<close>, \<open>-1\<close> when the character is absent. A position
  counts bytes where the language counts UTF-16 code units; the positions of two ASCII
  characters are in the same order in both, and \<open>slice\<close> cuts the same text between
  them.
\<close>

fun indexOf :: "'a list \<Rightarrow> 'a \<Rightarrow> int" where
  "indexOf [] c = - 1"
| "indexOf (x # xs) c =
     (if x = c then 0 else (let i = indexOf xs c in if i = - 1 then - 1 else i + 1))"

definition lastIndexOf :: "'a list \<Rightarrow> 'a \<Rightarrow> int" where
  "lastIndexOf s c =
     (let i = indexOf (rev s) c in if i = - 1 then - 1 else int (length s) - 1 - i)"

text \<open>\<open>s.slice(a, b)\<close>: a negative index counts from the end, both are clamped.\<close>

definition slice_index :: "string \<Rightarrow> int \<Rightarrow> nat" where
  "slice_index s i =
     (if i < 0 then nat (max (int (length s) + i) 0) else min (nat i) (length s))"

definition slice :: "string \<Rightarrow> int \<Rightarrow> int \<Rightarrow> string" where
  "slice s a b = (let from = slice_index s a; to = slice_index s b in take (to - from) (drop from s))"

text \<open>The decimal digits of a natural number, as a template writes it.\<close>

fun decimal :: "nat \<Rightarrow> string" where
  "decimal n = (if n < 10 then [''0123456789'' ! n] else decimal (n div 10) @ [''0123456789'' ! (n mod 10)])"

declare decimal.simps [simp del]

text \<open>
  Case mapping is that of the ASCII letters; the bytes of the other characters are kept.
  The \<open>i\<close> flag of a regular expression without the \<open>u\<close> flag compares the upper-case
  forms and never equates a character outside ASCII with an ASCII one, so for an ASCII
  pattern it is this mapping. \<open>toLowerCase\<close> of the language also maps the letters outside
  ASCII; it is used for the name of a gateway session and the directory of a project,
  which are exact for the names written in ASCII.
\<close>

definition toLowerCase_char :: "char \<Rightarrow> char" where
  "toLowerCase_char c = (if CHR ''A'' \<le> c \<and> c \<le> CHR ''Z'' then char_of (of_char c + (32::nat)) else c)"

definition toUpperCase_char :: "char \<Rightarrow> char" where
  "toUpperCase_char c = (if CHR ''a'' \<le> c \<and> c \<le> CHR ''z'' then char_of (of_char c - (32::nat)) else c)"

definition toLowerCase :: "string \<Rightarrow> string" where
  "toLowerCase s = map toLowerCase_char s"

definition toUpperCase :: "string \<Rightarrow> string" where
  "toUpperCase s = map toUpperCase_char s"

section \<open>JSON values and \<open>JSON.parse\<close>\<close>

text \<open>
  A number is kept as it is written, as mantissa and decimal exponent (\<open>JNum m e\<close> is
  \<open>m * 10 ^ e\<close>), where the language rounds it to a double; an object keeps its
  members in the order of the text.
\<close>

datatype json =
    JNull
  | JBool bool
  | JNum int int
  | JStr string
  | JArr "json list"
  | JObj "(string \<times> json) list"

text \<open>
  \<open>JSON.parse\<close> belongs to the JavaScript runtime, not to the repository. The handlers
  below take the parser as a parameter; \<open>JSON_parse\<close> is a model of it after the JSON
  grammar (ECMA-404), used to run them on concrete texts. A \<open>\uXXXX\<close> escape is decoded
  to the UTF-8 bytes of its character. The first argument of \<open>parse_value\<close> bounds the
  number of values, elements and members still to be read; \<open>JSON_parse\<close> starts it above
  the length of the text, which is enough for every text (\<open>JSON_parse_fuel\<close> below).
\<close>

definition is_json_ws :: "char \<Rightarrow> bool" where
  "is_json_ws c = (c = CHR 0x20 \<or> c = CHR 0x09 \<or> c = CHR 0x0A \<or> c = CHR 0x0D)"

definition skip_ws :: "string \<Rightarrow> string" where
  "skip_ws s = dropWhile is_json_ws s"

definition is_digit :: "char \<Rightarrow> bool" where
  "is_digit c = (CHR ''0'' \<le> c \<and> c \<le> CHR ''9'')"

definition digits_value :: "string \<Rightarrow> int" where
  "digits_value ds = foldl (\<lambda>a c. 10 * a + (int (of_char c) - 48)) 0 ds"

definition hex_digit :: "char \<Rightarrow> nat option" where
  "hex_digit c =
     (if is_digit c then Some (of_char c - 48)
      else if CHR ''a'' \<le> c \<and> c \<le> CHR ''f'' then Some (of_char c - 87)
      else if CHR ''A'' \<le> c \<and> c \<le> CHR ''F'' then Some (of_char c - 55)
      else None)"

fun hex_value :: "string \<Rightarrow> nat \<Rightarrow> nat option" where
  "hex_value [] acc = Some acc"
| "hex_value (c # cs) acc =
     (case hex_digit c of None \<Rightarrow> None | Some d \<Rightarrow> hex_value cs (16 * acc + d))"

definition utf8 :: "nat \<Rightarrow> string" where
  "utf8 n =
     (if n < 0x80 then [char_of n]
      else if n < 0x800 then [char_of (0xC0 + n div 64), char_of (0x80 + n mod 64)]
      else if n < 0x10000 then
        [char_of (0xE0 + n div 4096), char_of (0x80 + (n div 64) mod 64),
         char_of (0x80 + n mod 64)]
      else [char_of (0xF0 + n div 262144), char_of (0x80 + (n div 4096) mod 64),
            char_of (0x80 + (n div 64) mod 64), char_of (0x80 + n mod 64)])"

text \<open>
  The code unit \<open>n\<close> of a \<open>\uXXXX\<close> escape before the text \<open>s\<close>: a high surrogate
  (D800 to DBFF) directly before a low one (DC00 to DFFF, the bytes ED B0 80 to
  ED BF BF) is the character of the pair, in four bytes; a surrogate that stands alone
  keeps its three bytes.
\<close>

definition utf16_cons :: "nat \<Rightarrow> string \<Rightarrow> string" where
  "utf16_cons n s =
     (case s of
        a # b # c # r \<Rightarrow>
          if 0xD800 \<le> n \<and> n < 0xDC00 \<and> a = CHR 0xED \<and> CHR 0xB0 \<le> b \<and> b \<le> CHR 0xBF
          then utf8 (0x10000 + (n - 0xD800) * 1024
                       + ((of_char b - 0xB0) * 64 + (of_char c - 0x80))) @ r
          else utf8 n @ s
      | _ \<Rightarrow> utf8 n @ s)"

definition unescape :: "char \<Rightarrow> char option" where
  "unescape e =
     (if e = CHR 0x22 \<or> e = CHR 0x5C \<or> e = CHR ''/'' then Some e
      else if e = CHR ''b'' then Some (CHR 0x08)
      else if e = CHR ''f'' then Some (CHR 0x0C)
      else if e = CHR ''n'' then Some (CHR 0x0A)
      else if e = CHR ''r'' then Some (CHR 0x0D)
      else if e = CHR ''t'' then Some (CHR 0x09)
      else None)"

text \<open>The characters of a string literal, read after its opening quote.\<close>

fun parse_string :: "string \<Rightarrow> (string \<times> string) option" where
  "parse_string [] = None"
| "parse_string (c # cs) =
     (if c = CHR 0x22 then Some ([], cs)
      else if c = CHR 0x5C then
        (case cs of
           [] \<Rightarrow> None
         | e # r \<Rightarrow>
             if e = CHR ''u'' then
               (if length r < 4 then None
                else (case hex_value (take 4 r) 0 of
                        None \<Rightarrow> None
                      | Some n \<Rightarrow> map_option (\<lambda>(s, t). (utf16_cons n s, t)) (parse_string (drop 4 r))))
             else (case unescape e of
                     None \<Rightarrow> None
                   | Some d \<Rightarrow> map_option (\<lambda>(s, t). (d # s, t)) (parse_string r)))
      else if c < CHR 0x20 then None
      else map_option (\<lambda>(s, t). (c # s, t)) (parse_string cs))"

text \<open>
  \<open>-? (0 | [1-9][0-9]*) (. [0-9]+)? ([eE] [+-]? [0-9]+)?\<close>
\<close>

definition parse_number :: "string \<Rightarrow> (json \<times> string) option" where
  "parse_number cs =
     (let neg = startsWith ''-'' cs;
          r0 = (if neg then drop 1 cs else cs);
          ip = (if startsWith ''0'' r0 then ''0'' else takeWhile is_digit r0);
          r1 = drop (length ip) r0;
          has_frac = startsWith ''.'' r1;
          fp = (if has_frac then takeWhile is_digit (drop 1 r1) else []);
          r2 = (if has_frac then drop (1 + length fp) r1 else r1);
          has_exp = (startsWith ''e'' r2 \<or> startsWith ''E'' r2);
          r3 = (if has_exp then drop 1 r2 else r2);
          eneg = (has_exp \<and> startsWith ''-'' r3);
          r4 = (if has_exp \<and> (startsWith ''-'' r3 \<or> startsWith ''+'' r3) then drop 1 r3 else r3);
          ep = (if has_exp then takeWhile is_digit r4 else []);
          r5 = drop (length ep) r4;
          m = digits_value (ip @ fp);
          e = (if eneg then - digits_value ep else digits_value ep) - int (length fp)
      in if ip = [] \<or> (has_frac \<and> fp = []) \<or> (has_exp \<and> ep = []) then None
         else Some (JNum (if neg then - m else m) e, r5))"

fun parse_value :: "nat \<Rightarrow> string \<Rightarrow> (json \<times> string) option"
  and parse_elements :: "nat \<Rightarrow> string \<Rightarrow> json list \<Rightarrow> (json \<times> string) option"
  and parse_members :: "nat \<Rightarrow> string \<Rightarrow> (string \<times> json) list \<Rightarrow> (json \<times> string) option"
where
  "parse_value 0 cs = None"
| "parse_value (Suc n) cs =
     (let s = skip_ws cs in
      if startsWith ''{'' s then
        (let r = skip_ws (drop 1 s) in
         if startsWith ''}'' r then Some (JObj [], drop 1 r) else parse_members n r [])
      else if startsWith ''['' s then
        (let r = skip_ws (drop 1 s) in
         if startsWith '']'' r then Some (JArr [], drop 1 r) else parse_elements n r [])
      else if startsWith [CHR 0x22] s then
        map_option (\<lambda>(v, t). (JStr v, t)) (parse_string (drop 1 s))
      else if startsWith ''true'' s then Some (JBool True, drop 4 s)
      else if startsWith ''false'' s then Some (JBool False, drop 5 s)
      else if startsWith ''null'' s then Some (JNull, drop 4 s)
      else parse_number s)"
| "parse_elements 0 cs acc = None"
| "parse_elements (Suc n) cs acc =
     (case parse_value n cs of
        None \<Rightarrow> None
      | Some (v, r) \<Rightarrow>
          (let s = skip_ws r in
           if startsWith '','' s then parse_elements n (drop 1 s) (acc @ [v])
           else if startsWith '']'' s then Some (JArr (acc @ [v]), drop 1 s)
           else None))"
| "parse_members 0 cs acc = None"
| "parse_members (Suc n) cs acc =
     (let s = skip_ws cs in
      if startsWith [CHR 0x22] s then
        (case parse_string (drop 1 s) of
           None \<Rightarrow> None
         | Some (k, r1) \<Rightarrow>
             (let s1 = skip_ws r1 in
              if startsWith '':'' s1 then
                (case parse_value n (drop 1 s1) of
                   None \<Rightarrow> None
                 | Some (v, r2) \<Rightarrow>
                     (let s2 = skip_ws r2 in
                      if startsWith '','' s2 then parse_members n (drop 1 s2) (acc @ [(k, v)])
                      else if startsWith ''}'' s2 then Some (JObj (acc @ [(k, v)]), drop 1 s2)
                      else None))
              else None))
      else None)"

definition JSON_parse :: "string \<Rightarrow> json option" where
  "JSON_parse s =
     (case parse_value (Suc (length s)) s of
        None \<Rightarrow> None
      | Some (v, r) \<Rightarrow> if skip_ws r = [] then Some v else None)"

section \<open>The JSON extractor\<close>

text \<open>
  The regular expression of the second strategy, three backquotes, an optional
  \<open>json\<close>, \<open>\s*\<close>, a lazy group \<open>([\s\S]*?)\<close> and three backquotes again, as the
  backtracking matcher runs it: the optional group and the greedy \<open>\s*\<close> first take what
  they can and give it back when the rest fails, the lazy group takes the shortest text
  that is followed by the closing fence, and the match starts at the leftmost position
  where all of this succeeds. The result is the text of the group.
\<close>

definition fence :: string where
  "fence = [CHR 0x60, CHR 0x60, CHR 0x60]"

fun lazy_until_fence :: "string \<Rightarrow> string option" where
  "lazy_until_fence [] = None"
| "lazy_until_fence (c # cs) =
     (if startsWith fence (c # cs) then Some []
      else map_option ((#) c) (lazy_until_fence cs))"

fun spaces_then :: "(string \<Rightarrow> 'a option) \<Rightarrow> string \<Rightarrow> 'a option" where
  "spaces_then k [] = k []"
| "spaces_then k (c # cs) =
     (if space_len (c # cs) = 0 then k (c # cs)
      else (case spaces_then k (drop (space_len (c # cs) - 1) cs) of
              Some r \<Rightarrow> Some r
            | None \<Rightarrow> k (c # cs)))"

definition optional_then :: "string \<Rightarrow> (string \<Rightarrow> 'a option) \<Rightarrow> string \<Rightarrow> 'a option" where
  "optional_then p k s =
     (if startsWith p s then (case k (drop (length p) s) of Some r \<Rightarrow> Some r | None \<Rightarrow> k s)
      else k s)"

definition codeBlock_here :: "string \<Rightarrow> string option" where
  "codeBlock_here s =
     (if startsWith fence s
      then optional_then ''json'' (spaces_then lazy_until_fence) (drop (length fence) s)
      else None)"

fun codeBlockMatch :: "string \<Rightarrow> string option" where
  "codeBlockMatch [] = None"
| "codeBlockMatch (c # cs) =
     (case codeBlock_here (c # cs) of Some r \<Rightarrow> Some r | None \<Rightarrow> codeBlockMatch cs)"

text \<open>
  \<open>extractJSON\<close>. A \<open>try { return JSON.parse(...) } catch { }\<close> returns whatever the
  parser gives, also a scalar, and goes on to the next strategy when the parser throws.
  The final \<open>return null\<close> and the \<open>null\<close> of a parsed text \<open>null\<close> are the same
  JavaScript value, \<open>JNull\<close>.
\<close>

definition extractJSON :: "(string \<Rightarrow> json option) \<Rightarrow> string \<Rightarrow> json" where
  "extractJSON parse text =
     (case parse (trim text) of
        Some v \<Rightarrow> v
      | None \<Rightarrow>
          (case (case codeBlockMatch text of
                   Some inner \<Rightarrow> parse (trim inner)
                 | None \<Rightarrow> None) of
             Some v \<Rightarrow> v
           | None \<Rightarrow>
               (let firstBrace = indexOf text (CHR ''{'');
                    lastBrace = lastIndexOf text (CHR ''}'')
                in case (if firstBrace \<noteq> - 1 \<and> lastBrace > firstBrace
                         then parse (slice text firstBrace (lastBrace + 1))
                         else None) of
                     Some v \<Rightarrow> v
                   | None \<Rightarrow> JNull)))"

text \<open>
  The three strategies in the words of the specification, to compare \<open>extractJSON\<close>
  with: the whole trimmed text; the interior of the first fenced block, which is the
  text after the first fence, without a leading \<open>json\<close> tag and the white space after
  it, up to the next fence; the text from the first opening brace to the last closing
  brace. A fence is found by its position, the least index at which the three
  backquotes stand.
\<close>

definition fence_at :: "string \<Rightarrow> nat \<Rightarrow> bool" where
  "fence_at s i = (i + 3 \<le> length s \<and> s ! i = CHR 0x60 \<and> s ! (i + 1) = CHR 0x60 \<and> s ! (i + 2) = CHR 0x60)"

definition fence_index :: "string \<Rightarrow> nat option" where
  "fence_index s = find (fence_at s) [0..<length s]"

definition fenced_interior :: "string \<Rightarrow> string option" where
  "fenced_interior text =
     (case fence_index text of
        None \<Rightarrow> None
      | Some i \<Rightarrow>
          (let opened = drop (i + 3) text;
               body = trimStart (if startsWith ''json'' opened then drop 4 opened else opened)
           in case fence_index body of
                None \<Rightarrow> None
              | Some j \<Rightarrow> Some (take j body)))"

definition brace_span :: "string \<Rightarrow> string option" where
  "brace_span text =
     (let s = dropWhile (\<lambda>c. c \<noteq> CHR ''{'') text;
          t = rev (dropWhile (\<lambda>c. c \<noteq> CHR ''}'') (rev s))
      in if t = [] then None else Some t)"

definition strategy_whole :: "(string \<Rightarrow> json option) \<Rightarrow> string \<Rightarrow> json option" where
  "strategy_whole parse text = parse (trim text)"

definition strategy_fenced :: "(string \<Rightarrow> json option) \<Rightarrow> string \<Rightarrow> json option" where
  "strategy_fenced parse text =
     (case fenced_interior text of None \<Rightarrow> None | Some inner \<Rightarrow> parse (trim inner))"

definition strategy_braces :: "(string \<Rightarrow> json option) \<Rightarrow> string \<Rightarrow> json option" where
  "strategy_braces parse text =
     (case brace_span text of None \<Rightarrow> None | Some t \<Rightarrow> parse t)"

fun first_success :: "'a option list \<Rightarrow> 'a option" where
  "first_success [] = None"
| "first_success (None # rs) = first_success rs"
| "first_success (Some v # rs) = Some v"


section \<open>JavaScript values\<close>

text \<open>
  \<open>ToBoolean\<close> on a parsed value. A number is falsy when the double it denotes is zero:
  its mantissa is zero, or it is so small that it rounds to zero (at most \<open>2^-1075\<close>).
\<close>

definition num_is_zero :: "int \<Rightarrow> int \<Rightarrow> bool" where
  "num_is_zero m e = (m = 0 \<or> (e < 0 \<and> \<bar>m\<bar> * 2 ^ 1075 \<le> 10 ^ nat (- e)))"

fun truthy :: "json \<Rightarrow> bool" where
  "truthy JNull = False"
| "truthy (JBool b) = b"
| "truthy (JNum m e) = (\<not> num_is_zero m e)"
| "truthy (JStr s) = (s \<noteq> [])"
| "truthy (JArr vs) = True"
| "truthy (JObj kvs) = True"

text \<open>
  \<open>v.k\<close> for a value that is not \<open>null\<close>: the member of an object (the last one of that
  name), \<open>undefined\<close> (\<open>None\<close>) when there is none and on every value that is not an
  object. On \<open>null\<close> the access throws; the handlers test for it first.
\<close>

definition getprop :: "json \<Rightarrow> string \<Rightarrow> json option" where
  "getprop v k = (case v of JObj kvs \<Rightarrow> map_of (rev kvs) k | _ \<Rightarrow> None)"

text \<open>
  A field as the handlers use it: falsy, a non-empty string, or some other truthy value.
\<close>

datatype jsfield = Falsy | Text string | NonText

fun classify :: "json option \<Rightarrow> jsfield" where
  "classify None = Falsy"
| "classify (Some (JStr s)) = (if s = [] then Falsy else Text s)"
| "classify (Some v) = (if truthy v then NonText else Falsy)"

text \<open>
  A truthy value that is not a string reaches the SQL driver as a bound parameter, or a
  template as an interpolated value. What the driver and the runtime make of it is
  outside the repository: the model stops there with the reply \<open>Unmodelled\<close> and the
  store as the statements before have left it. \<open>text_or f d\<close> is the bound value of
  \<open>f || d\<close>, \<open>text_or_null f\<close> that of \<open>f || null\<close>; \<open>None\<close> is the case left out.
\<close>

datatype reply = Reply nat json | Unmodelled

definition text_or :: "jsfield \<Rightarrow> string \<Rightarrow> string option" where
  "text_or f d = (case f of Falsy \<Rightarrow> Some d | Text s \<Rightarrow> Some s | NonText \<Rightarrow> None)"

definition text_or_null :: "jsfield \<Rightarrow> string option option" where
  "text_or_null f = (case f of Falsy \<Rightarrow> Some None | Text s \<Rightarrow> Some (Some s) | NonText \<Rightarrow> None)"

definition error_body :: "string \<Rightarrow> json" where
  "error_body msg = JObj [(''error'', JStr msg)]"

definition internal_error :: reply where
  "internal_error = Reply 500 (error_body ''Internal server error'')"

section \<open>The store\<close>

text \<open>
  One list of rows for each table, in insertion order. \<open>queryOne\<close> is the first row
  that satisfies the \<open>WHERE\<close> clause, \<open>UPDATE\<close> changes every row that satisfies it,
  \<open>INSERT\<close> appends a row. The columns are those the statements of the handlers name.
  Every statement succeeds: the constraints of the schema and the failures of the
  database are not part of the model.
\<close>

record planning_message =
  pm_role :: string
  pm_content :: string
  pm_timestamp :: nat

record task =
  t_id :: string
  t_title :: string
  t_description :: "string option"
  t_status :: string
  t_priority :: string
  t_assigned_agent_id :: "string option"
  t_workspace_id :: string
  t_due_date :: "string option"
  t_updated_at :: string
  t_planning_session_key :: "string option"
  t_planning_messages :: "planning_message list option"

record agent =
  a_id :: string
  a_name :: string
  a_role :: string
  a_is_master :: bool
  a_status :: string
  a_workspace_id :: string
  a_updated_at :: string

record session =
  s_id :: string
  s_agent_id :: string
  s_openclaw_session_id :: string
  s_channel :: string
  s_status :: string
  s_created_at :: string
  s_updated_at :: string

record event =
  e_id :: string
  e_type :: string
  e_agent_id :: "string option"
  e_task_id :: "string option"
  e_message :: string
  e_created_at :: string

record activity =
  act_id :: string
  act_task_id :: string
  act_agent_id :: "string option"
  act_activity_type :: string
  act_message :: string
  act_created_at :: string

record deliverable =
  d_id :: string
  d_task_id :: string
  d_deliverable_type :: string
  d_title :: string
  d_path :: "string option"
  d_description :: "string option"
  d_created_at :: string

record store =
  tasks :: "task list"
  agents :: "agent list"
  openclaw_sessions :: "session list"
  events :: "event list"
  task_activities :: "activity list"
  task_deliverables :: "deliverable list"

text \<open>
  What a request reads from outside: the clock (\<open>new Date().toISOString()\<close>, read once
  by a handler, and the successive readings of \<open>Date.now()\<close>) and the identifiers that
  \<open>uuidv4()\<close> and \<open>crypto.randomUUID()\<close> draw, numbered by call site.
\<close>

record sys =
  now :: string
  Date_now :: "nat \<Rightarrow> nat"
  uuidv4 :: "nat \<Rightarrow> string"

text \<open>
  The configuration: the environment variables, and what \<open>getProjectsPath()\<close> and
  \<open>getMissionControlUrl()\<close> of the configuration module return.
\<close>

record env =
  WEBHOOK_SECRET :: "string option"
  MC_API_TOKEN :: "string option"
  projectsPath :: string
  missionControlUrl :: string

text \<open>
  The runtime: \<open>JSON.parse\<close> (\<open>None\<close> when it throws),
  \<open>createHmac('sha256', key).update(body).digest('hex')\<close>, and the message of the
  \<open>TypeError\<close> that \<open>key in value\<close> throws when the value is not an object.
\<close>

record runtime =
  parseJSON :: "string \<Rightarrow> json option"
  hmac_sha256_hex :: "string \<Rightarrow> string \<Rightarrow> string"
  in_TypeError :: "string \<Rightarrow> json \<Rightarrow> string"

definition task_by_id :: "store \<Rightarrow> string \<Rightarrow> task option" where
  "task_by_id st i = find (\<lambda>t. t_id t = i) (tasks st)"

definition agent_by_id :: "store \<Rightarrow> string \<Rightarrow> agent option" where
  "agent_by_id st i = find (\<lambda>a. a_id a = i) (agents st)"

text \<open>The column \<open>a.name as assigned_agent_name\<close> of the left join.\<close>

definition assigned_agent_name :: "store \<Rightarrow> task \<Rightarrow> string option" where
  "assigned_agent_name st t =
     (case t_assigned_agent_id t of
        None \<Rightarrow> None
      | Some i \<Rightarrow> map_option a_name (agent_by_id st i))"

definition update_task_status :: "string \<Rightarrow> string \<Rightarrow> string \<Rightarrow> store \<Rightarrow> store" where
  "update_task_status new_status at i st =
     st\<lparr>tasks := map (\<lambda>t. if t_id t = i then t\<lparr>t_status := new_status, t_updated_at := at\<rparr> else t)
                     (tasks st)\<rparr>"

definition update_agent_status :: "string \<Rightarrow> string \<Rightarrow> string \<Rightarrow> store \<Rightarrow> store" where
  "update_agent_status new_status at i st =
     st\<lparr>agents := map (\<lambda>a. if a_id a = i then a\<lparr>a_status := new_status, a_updated_at := at\<rparr> else a)
                      (agents st)\<rparr>"

definition insert_event :: "event \<Rightarrow> store \<Rightarrow> store" where
  "insert_event e st = st\<lparr>events := events st @ [e]\<rparr>"

definition insert_activity :: "activity \<Rightarrow> store \<Rightarrow> store" where
  "insert_activity a st = st\<lparr>task_activities := task_activities st @ [a]\<rparr>"

definition insert_deliverable :: "deliverable \<Rightarrow> store \<Rightarrow> store" where
  "insert_deliverable d st = st\<lparr>task_deliverables := task_deliverables st @ [d]\<rparr>"

definition insert_session :: "session \<Rightarrow> store \<Rightarrow> store" where
  "insert_session s st = st\<lparr>openclaw_sessions := openclaw_sessions st @ [s]\<rparr>"

definition active_session :: "store \<Rightarrow> string \<Rightarrow> session option" where
  "active_session st agent = find (\<lambda>s. s_agent_id s = agent \<and> s_status s = ''active'') (openclaw_sessions st)"

section \<open>The completion webhook\<close>

definition verifyWebhookSignature :: "runtime \<Rightarrow> env \<Rightarrow> string \<Rightarrow> string \<Rightarrow> bool" where
  "verifyWebhookSignature rt ev signature rawBody =
     (case WEBHOOK_SECRET ev of
        None \<Rightarrow> True
      | Some webhookSecret \<Rightarrow>
          if webhookSecret = [] then True
          else if signature = [] then False
          else signature = hmac_sha256_hex rt webhookSecret rawBody)"

definition allowedStatuses :: "string list" where
  "allowedStatuses = [''testing'', ''review'', ''done'']"

definition statusOrder :: "string list" where
  "statusOrder = [''planning'', ''inbox'', ''assigned'', ''in_progress'', ''testing'', ''review'', ''done'']"

text \<open>
  \<open>allowedStatuses.includes(body.status) ? body.status : 'testing'\<close>: only a string can be
  equal to a member of the list.
\<close>

definition targetStatus :: "json option \<Rightarrow> string" where
  "targetStatus v =
     (case v of
        Some (JStr s) \<Rightarrow> if s \<in> set allowedStatuses then s else ''testing''
      | _ \<Rightarrow> ''testing'')"

text \<open>
  \<open>body.deliverables || []\<close> as the \<open>for ... of\<close> loop takes it: a falsy value is the
  empty list; a truthy value that is neither an array nor a string cannot be iterated
  (a \<open>TypeError\<close>, reply 500); a string would be iterated character by character, and
  the first insertion binds an \<open>undefined\<close> title.
\<close>

definition deliverables_of :: "json option \<Rightarrow> reply + json list" where
  "deliverables_of v =
     (case v of
        None \<Rightarrow> Inr []
      | Some (JArr ds) \<Rightarrow> Inr ds
      | Some (JStr s) \<Rightarrow> if s = [] then Inr [] else Inl Unmodelled
      | Some w \<Rightarrow> if truthy w then Inl internal_error else Inr [])"

text \<open>
  The row of one entry: \<open>d.type || 'file'\<close>, \<open>d.title\<close>, \<open>d.path || null\<close>,
  \<open>d.description || null\<close>; \<open>None\<close> when a bound value is not a string.
\<close>

definition deliverable_row :: "sys \<Rightarrow> string \<Rightarrow> nat \<Rightarrow> json \<Rightarrow> deliverable option" where
  "deliverable_row sy tid i d =
     (case (text_or (classify (getprop d ''type'')) ''file'', getprop d ''title'',
            text_or_null (classify (getprop d ''path'')),
            text_or_null (classify (getprop d ''description''))) of
        (Some ty, Some (JStr ti), Some pa, Some de) \<Rightarrow>
          Some \<lparr>d_id = uuidv4 sy i, d_task_id = tid, d_deliverable_type = ty, d_title = ti,
                d_path = pa, d_description = de, d_created_at = now sy\<rparr>
      | _ \<Rightarrow> None)"

text \<open>
  The loop over the entries; the first component is the reply that ends the request
  early: an entry \<open>null\<close> throws at \<open>d.type\<close>.
\<close>

fun register_deliverables :: "sys \<Rightarrow> string \<Rightarrow> nat \<Rightarrow> json list \<Rightarrow> store \<Rightarrow> reply option \<times> store" where
  "register_deliverables sy tid i [] st = (None, st)"
| "register_deliverables sy tid i (d # ds) st =
     (if d = JNull then (Some internal_error, st)
      else (case deliverable_row sy tid i d of
              None \<Rightarrow> (Some Unmodelled, st)
            | Some row \<Rightarrow> register_deliverables sy tid (Suc i) ds (insert_deliverable row st)))"

definition name_or_null :: "string option \<Rightarrow> string" where
  "name_or_null n = (case n of None \<Rightarrow> ''null'' | Some s \<Rightarrow> s)"

definition complete_direct :: "sys \<Rightarrow> json \<Rightarrow> string \<Rightarrow> store \<Rightarrow> reply \<times> store" where
  "complete_direct sy body tid st =
     (case task_by_id st tid of
        None \<Rightarrow> (Reply 404 (error_body ''Task not found''), st)
      | Some task \<Rightarrow>
          (let target = targetStatus (getprop body ''status'');
               currentIdx = indexOf statusOrder (t_status task);
               targetIdx = indexOf statusOrder target;
               newStatus = (if targetIdx > currentIdx then target else t_status task);
               st1 = (if newStatus \<noteq> t_status task
                      then update_task_status newStatus (now sy) (t_id task) st else st)
           in case deliverables_of (getprop body ''deliverables'') of
                Inl r \<Rightarrow> (r, st1)
              | Inr ds \<Rightarrow>
                  (case register_deliverables sy (t_id task) 0 ds st1 of
                     (Some r, st2) \<Rightarrow> (r, st2)
                   | (None, st2) \<Rightarrow>
                       (case text_or (classify (getprop body ''summary'')) ''Task finished'' of
                          None \<Rightarrow> (Unmodelled, st2)
                        | Some summary \<Rightarrow>
                            (let st3 = insert_activity
                                   \<lparr>act_id = uuidv4 sy (length ds), act_task_id = t_id task,
                                    act_agent_id = t_assigned_agent_id task,
                                    act_activity_type = ''completed'', act_message = summary,
                                    act_created_at = now sy\<rparr> st2;
                                 st4 = insert_event
                                   \<lparr>e_id = uuidv4 sy (Suc (length ds)), e_type = ''task_completed'',
                                    e_agent_id = t_assigned_agent_id task,
                                    e_task_id = Some (t_id task),
                                    e_message = name_or_null (assigned_agent_name st task)
                                                @ '' completed: '' @ summary,
                                    e_created_at = now sy\<rparr> st3;
                                 st5 = (case t_assigned_agent_id task of
                                          None \<Rightarrow> st4
                                        | Some a \<Rightarrow>
                                            if a = [] then st4
                                            else update_agent_status ''standby'' (now sy) a st4)
                             in (Reply 200
                                   (JObj [(''success'', JBool True),
                                          (''task_id'', JStr (t_id task)),
                                          (''new_status'', JStr newStatus),
                                          (''deliverables_registered'', JNum (int (length ds)) 0),
                                          (''message'', JStr (''Task moved to '' @ newStatus))]),
                                 st5))))))"

text \<open>
  The marker \<open>/TASK_COMPLETE:\s*(.+)/i\<close>: the text of the group at the leftmost match,
  with the greedy \<open>\s*\<close> giving characters back when the group would be empty. The
  group \<open>(.+)\<close> is the text up to the next line terminator, and is not empty.
\<close>

definition startsWith_ci :: "string \<Rightarrow> string \<Rightarrow> bool" where
  "startsWith_ci p s = (toUpperCase (take (length p) s) = toUpperCase p)"

fun before_line_terminator :: "string \<Rightarrow> string" where
  "before_line_terminator [] = []"
| "before_line_terminator (c # cs) =
     (if prefix_len line_terminators (c # cs) = 0 then c # before_line_terminator cs else [])"

definition dot_plus :: "string \<Rightarrow> string option" where
  "dot_plus s = (let m = before_line_terminator s in if m = [] then None else Some m)"

definition completion_here :: "string \<Rightarrow> string option" where
  "completion_here s =
     (if startsWith_ci ''TASK_COMPLETE:'' s
      then spaces_then dot_plus (drop (length ''TASK_COMPLETE:'') s)
      else None)"

fun completionMatch :: "string \<Rightarrow> string option" where
  "completionMatch [] = None"
| "completionMatch (c # cs) =
     (case completion_here (c # cs) of Some r \<Rightarrow> Some r | None \<Rightarrow> completionMatch cs)"

text \<open>
  \<open>ORDER BY t.updated_at DESC LIMIT 1\<close>: a row with the greatest \<open>updated_at\<close>; among
  equal ones SQL leaves the choice open, the model takes the first of the table.
\<close>

fun latest :: "task list \<Rightarrow> task option" where
  "latest [] = None"
| "latest (t # ts) =
     (case latest ts of
        None \<Rightarrow> Some t
      | Some u \<Rightarrow> if t_updated_at u \<le> t_updated_at t then Some t else Some u)"

definition active_tasks :: "store \<Rightarrow> string \<Rightarrow> task list" where
  "active_tasks st agent =
     filter (\<lambda>t. t_assigned_agent_id t = Some agent
                \<and> (t_status t = ''assigned'' \<or> t_status t = ''in_progress''))
       (tasks st)"

definition complete_session :: "sys \<Rightarrow> string \<Rightarrow> string \<Rightarrow> store \<Rightarrow> reply \<times> store" where
  "complete_session sy sid summary st =
     (case find (\<lambda>s. s_openclaw_session_id s = sid \<and> s_status s = ''active'')
             (openclaw_sessions st) of
        None \<Rightarrow> (Reply 404 (error_body ''Session not found or inactive''), st)
      | Some session \<Rightarrow>
          (case latest (active_tasks st (s_agent_id session)) of
             None \<Rightarrow> (Reply 404 (error_body ''No active task found for this agent''), st)
           | Some task \<Rightarrow>
               (let st1 = (if t_status task \<noteq> ''testing'' \<and> t_status task \<noteq> ''review''
                              \<and> t_status task \<noteq> ''done''
                           then update_task_status ''testing'' (now sy) (t_id task) st
                           else st);
                    st2 = insert_event
                      \<lparr>e_id = uuidv4 sy 0, e_type = ''task_completed'',
                       e_agent_id = Some (s_agent_id session),
                       e_task_id = Some (t_id task),
                       e_message = name_or_null (assigned_agent_name st task)
                                   @ '' completed: '' @ summary,
                       e_created_at = now sy\<rparr> st1;
                    st3 = update_agent_status ''standby'' (now sy) (s_agent_id session) st2
                in (Reply 200
                      (JObj [(''success'', JBool True),
                             (''task_id'', JStr (t_id task)),
                             (''agent_id'', JStr (s_agent_id session)),
                             (''summary'', JStr summary),
                             (''new_status'', JStr ''testing''),
                             (''message'', JStr ''Task moved to testing for automated verification'')]),
                    st3))))"

text \<open>
  The handler after \<open>JSON.parse\<close>. \<open>body.task_id\<close> throws on \<open>null\<close>; a message that
  is truthy and not a string has no \<open>match\<close> method, and the call throws.
\<close>

definition invalid_payload :: reply where
  "invalid_payload =
     Reply 400 (error_body ''Invalid payload. Provide either task_id or session_id + message'')"

definition invalid_format :: reply where
  "invalid_format =
     Reply 400 (error_body
       ''Invalid completion message format. Expected: TASK_COMPLETE: [summary]'')"

definition completion_body :: "sys \<Rightarrow> json \<Rightarrow> store \<Rightarrow> reply \<times> store" where
  "completion_body sy body st =
     (if body = JNull then (internal_error, st)
      else (case classify (getprop body ''task_id'') of
              Text tid \<Rightarrow> complete_direct sy body tid st
            | NonText \<Rightarrow> (Unmodelled, st)
            | Falsy \<Rightarrow>
                (case classify (getprop body ''session_id'') of
                   Falsy \<Rightarrow> (invalid_payload, st)
                 | session_id \<Rightarrow>
                     (case classify (getprop body ''message'') of
                        Falsy \<Rightarrow> (invalid_payload, st)
                      | NonText \<Rightarrow> (internal_error, st)
                      | Text message \<Rightarrow>
                          (case completionMatch message of
                             None \<Rightarrow> (invalid_format, st)
                           | Some captured \<Rightarrow>
                               (case session_id of
                                  Text sid \<Rightarrow> complete_session sy sid (trim captured) st
                                | _ \<Rightarrow> (Unmodelled, st)))))))"

text \<open>
  \<open>POST /api/webhooks/agent-completion\<close>, from the signature header (\<open>None\<close> when the
  request has none) and the raw body. The signature is looked at only when the secret is
  set and not empty.
\<close>

definition signature_rejected :: "runtime \<Rightarrow> env \<Rightarrow> string option \<Rightarrow> string \<Rightarrow> bool" where
  "signature_rejected rt ev signature rawBody =
     (case WEBHOOK_SECRET ev of
        None \<Rightarrow> False
      | Some webhookSecret \<Rightarrow>
          webhookSecret \<noteq> []
          \<and> (case signature of
                None \<Rightarrow> True
              | Some sg \<Rightarrow> sg = [] \<or> \<not> verifyWebhookSignature rt ev sg rawBody))"

definition completion_POST ::
  "runtime \<Rightarrow> env \<Rightarrow> sys \<Rightarrow> string option \<Rightarrow> string \<Rightarrow> store \<Rightarrow> reply \<times> store" where
  "completion_POST rt ev sy signature rawBody st =
     (if signature_rejected rt ev signature rawBody
      then (Reply 401 (error_body ''Unauthorized''), st)
      else (case parseJSON rt rawBody of
              None \<Rightarrow> (internal_error, st)
            | Some body \<Rightarrow> completion_body sy body st))"

text \<open>
  For the statements about deliverables: the type an entry asks for, \<open>file\<close> when the
  field is absent, empty or falsy; and the entries whose fields are strings where a
  string is bound (the title a string; type, path and description a string or falsy).
\<close>

definition entry_type :: "json \<Rightarrow> string" where
  "entry_type d =
     (case getprop d ''type'' of
        Some (JStr s) \<Rightarrow> if s = [] then ''file'' else s
      | _ \<Rightarrow> ''file'')"

definition well_typed_entry :: "json \<Rightarrow> bool" where
  "well_typed_entry d =
     (d \<noteq> JNull \<and> classify (getprop d ''type'') \<noteq> NonText
      \<and> (case getprop d ''title'' of Some (JStr ti) \<Rightarrow> True | _ \<Rightarrow> False)
      \<and> classify (getprop d ''path'') \<noteq> NonText
      \<and> classify (getprop d ''description'') \<noteq> NonText)"

section \<open>The gateway\<close>

text \<open>
  The gateway is outside the repository. A client is what the handlers call on it; each
  call takes the gateway's state and gives an outcome and the state after. A rejected
  promise is the message of its error (\<open>Some\<close> for \<open>connect\<close>, \<open>listSessions\<close> and
  \<open>chat.send\<close>, \<open>Inl\<close> for \<open>chat.history\<close>). The statements below hold for every client
  and every state.
\<close>

record gw_block =
  gb_type :: string
  gb_text :: "string option"

record gw_message =
  gm_role :: string
  gm_content :: "gw_block list option"

record 'g client =
  isConnected :: "'g \<Rightarrow> bool"
  connect :: "'g \<Rightarrow> string option \<times> 'g"
  listSessions :: "'g \<Rightarrow> string option \<times> 'g"
  chat_send :: "string \<Rightarrow> string \<Rightarrow> string \<Rightarrow> 'g \<Rightarrow> string option \<times> 'g"
  chat_history :: "string \<Rightarrow> nat \<Rightarrow> 'g \<Rightarrow> (string + gw_message list) \<times> 'g"

text \<open>
  All a handler can change: the store, the gateway, the tasks handed to \<open>broadcast\<close>,
  and the delays it has waited for (milliseconds).
\<close>

record 'g world =
  w_store :: store
  w_gateway :: "'g"
  w_broadcast :: "task list"
  w_slept :: "nat list"

section \<open>Dispatch\<close>

text \<open>\<open>s.replace(/[class]+/g, '-')\<close>: every maximal run of the class becomes one dash.\<close>

function replace_runs :: "(char \<Rightarrow> bool) \<Rightarrow> string \<Rightarrow> string" where
  "replace_runs p [] = []"
| "replace_runs p (c # cs) =
     (if p c then CHR ''-'' # replace_runs p (dropWhile p cs) else c # replace_runs p cs)"
  by pat_completeness auto
termination
  by (relation "measure (\<lambda>(p, s). length s)") (auto simp: le_imp_less_Suc length_dropWhile_le)

text \<open>
  \<open>s.replace(/\s+/g, '-')\<close>: the same for the white space characters; \<open>in_run\<close> tells
  that the dash of the run at hand is written.
\<close>

fun replace_spaces :: "bool \<Rightarrow> string \<Rightarrow> string" where
  "replace_spaces in_run [] = []"
| "replace_spaces in_run (c # cs) =
     (if space_len (c # cs) = 0 then c # replace_spaces False cs
      else (if in_run then [] else ''-'')
           @ replace_spaces True (drop (space_len (c # cs) - 1) cs))"

definition sessionName :: "string \<Rightarrow> string" where
  "sessionName name = ''mission-control-'' @ replace_spaces False (toLowerCase name)"

definition is_lower_alnum :: "char \<Rightarrow> bool" where
  "is_lower_alnum c = ((CHR ''a'' \<le> c \<and> c \<le> CHR ''z'') \<or> is_digit c)"

text \<open>\<open>s.replace(/^-|-$/g, '')\<close>\<close>

definition strip_dashes :: "string \<Rightarrow> string" where
  "strip_dashes s =
     (let s1 = (if startsWith ''-'' s then drop 1 s else s)
      in if s1 \<noteq> [] \<and> last s1 = CHR ''-'' then butlast s1 else s1)"

definition projectDir :: "string \<Rightarrow> string" where
  "projectDir title =
     strip_dashes (replace_runs (\<lambda>c. \<not> is_lower_alnum c) (toLowerCase title))"

text \<open>
  The marker of the priority, as UTF-8 bytes: the blue, yellow and red circles for
  \<open>low\<close>, \<open>high\<close> and \<open>urgent\<close>, the white circle for \<open>normal\<close> and for a value
  that is no key of the table. The table is an object literal, so a priority that is
  the name of a property every object inherits (\<open>constructor\<close>, \<open>toString\<close> and the
  like) finds that property instead, and the message starts with its text. The validation
  of the requests that create and change a task admits the four keys only; a row with
  such a name is read here as one outside the table.
\<close>

definition priorityEmoji :: "string \<Rightarrow> string" where
  "priorityEmoji p =
     (if p = ''low'' then [CHR 0xF0, CHR 0x9F, CHR 0x94, CHR 0xB5]
      else if p = ''high'' then [CHR 0xF0, CHR 0x9F, CHR 0x9F, CHR 0xA1]
      else if p = ''urgent'' then [CHR 0xF0, CHR 0x9F, CHR 0x94, CHR 0xB4]
      else [CHR 0xE2, CHR 0x9A, CHR 0xAA])"

definition join_lines :: "string list \<Rightarrow> string" where
  "join_lines ls = concat (case ls of [] \<Rightarrow> [] | l # rest \<Rightarrow> l # map (\<lambda>x. CHR 0x0A # x) rest)"

definition optional_line :: "string \<Rightarrow> string option \<Rightarrow> string" where
  "optional_line label v =
     (case v of
        None \<Rightarrow> []
      | Some x \<Rightarrow> if x = [] then [] else label @ x @ [CHR 0x0A])"

definition taskMessage :: "env \<Rightarrow> task \<Rightarrow> string" where
  \<open>taskMessage ev task =
     (let taskProjectDir = projectsPath ev @ ''/'' @ projectDir (t_title task);
          apiToken = (case MC_API_TOKEN ev of None \<Rightarrow> [] | Some tok \<Rightarrow> tok);
          authInstruction =
            (if apiToken = [] then []
             else CHR 0x0A # ''Include header: Authorization: Bearer '' @ apiToken)
      in join_lines
           [priorityEmoji (t_priority task) @ '' **NEW TASK ASSIGNED**'',
            [],
            ''**Title:** '' @ t_title task,
            optional_line ''**Description:** '' (t_description task),
            ''**Priority:** '' @ toUpperCase (t_priority task),
            optional_line ''**Due:** '' (t_due_date task),
            ''**Task ID:** '' @ t_id task,
            [],
            ''**OUTPUT DIRECTORY:** '' @ taskProjectDir,
            ''Create this directory and save all deliverables there.'',
            [],
            ''**WHEN COMPLETE**, make ONE API call to report results:'',
            ''POST '' @ missionControlUrl ev @ ''/api/webhooks/agent-completion'',
            ''Content-Type: application/json'' @ authInstruction,
            [],
            ''{'',
            ''  "task_id": "'' @ t_id task @ ''",'',
            ''  "status": "review",'',
            ''  "summary": "Brief description of what you did",'',
            ''  "deliverables": ['',
            ''    {"type": "file", "title": "filename.ext", "path": "'' @ taskProjectDir
              @ ''/filename.ext"}'',
            ''  ]'',
            ''}'',
            [],
            ''If you need help or clarification, ask the orchestrator.''])\<close>

text \<open>
  The other orchestrators: \<open>is_master = 1 AND id != agent.id AND workspace_id =
  task.workspace_id AND status != 'offline'\<close>.
\<close>

definition otherOrchestrators :: "store \<Rightarrow> agent \<Rightarrow> task \<Rightarrow> agent list" where
  "otherOrchestrators st agent task =
     filter (\<lambda>a. a_is_master a \<and> a_id a \<noteq> a_id agent
                \<and> a_workspace_id a = t_workspace_id task \<and> a_status a \<noteq> ''offline'')
       (agents st)"

definition join_comma :: "string list \<Rightarrow> string" where
  "join_comma ls = concat (case ls of [] \<Rightarrow> [] | l # rest \<Rightarrow> l # map (\<lambda>x. '', '' @ x) rest)"

definition orchestrator_json :: "agent \<Rightarrow> json" where
  "orchestrator_json a =
     JObj [(''id'', JStr (a_id a)), (''name'', JStr (a_name a)), (''role'', JStr (a_role a))]"

definition conflict_body :: "agent list \<Rightarrow> json" where
  "conflict_body others =
     JObj [(''success'', JBool False),
           (''warning'', JStr ''Other orchestrators available''),
           (''message'', JStr (''There '' @ (if length others = 1 then ''is'' else ''are'') @ '' ''
              @ decimal (length others) @ '' other orchestrator''
              @ (if length others = 1 then [] else ''s'')
              @ '' available in this workspace: '' @ join_comma (map a_name others)
              @ ''. Consider assigning this task to them instead.'')),
           (''otherOrchestrators'', JArr (map orchestrator_json others))]"

text \<open>After a successful \<open>chat.send\<close>.\<close>

definition dispatch_record ::
  "sys \<Rightarrow> string \<Rightarrow> task \<Rightarrow> agent \<Rightarrow> session \<Rightarrow> 'g world \<Rightarrow> reply \<times> 'g world" where
  "dispatch_record sy i task agent session w =
     (let st3 = update_task_status ''in_progress'' (now sy) i (w_store w);
          sent = (case task_by_id st3 i of
                    None \<Rightarrow> w_broadcast w
                  | Some updatedTask \<Rightarrow> w_broadcast w @ [updatedTask]);
          st4 = update_agent_status ''working'' (now sy) (a_id agent) st3;
          st5 = insert_event
                  \<lparr>e_id = uuidv4 sy 2, e_type = ''task_dispatched'', e_agent_id = Some (a_id agent),
                   e_task_id = Some (t_id task),
                   e_message = ''Task '' @ [CHR 0x22] @ t_title task @ [CHR 0x22]
                               @ '' dispatched to '' @ a_name agent,
                   e_created_at = now sy\<rparr> st4;
          st6 = insert_activity
                  \<lparr>act_id = uuidv4 sy 3, act_task_id = t_id task, act_agent_id = Some (a_id agent),
                   act_activity_type = ''status_changed'',
                   act_message = ''Task dispatched to '' @ a_name agent
                                 @ '' - Agent is now working on this task'',
                   act_created_at = now sy\<rparr> st5
      in (Reply 200
            (JObj [(''success'', JBool True), (''task_id'', JStr (t_id task)),
                   (''agent_id'', JStr (a_id agent)),
                   (''session_id'', JStr (s_openclaw_session_id session)),
                   (''message'', JStr ''Task dispatched to agent'')]),
          w\<lparr>w_store := st6, w_broadcast := sent\<rparr>))"

text \<open>The send: on a rejection nothing more is written.\<close>

definition dispatch_send ::
  "'g client \<Rightarrow> env \<Rightarrow> sys \<Rightarrow> string \<Rightarrow> task \<Rightarrow> agent \<Rightarrow> session \<Rightarrow> 'g world \<Rightarrow> reply \<times> 'g world" where
  "dispatch_send cl ev sy i task agent session w =
     (case chat_send cl (''agent:main:'' @ s_openclaw_session_id session) (taskMessage ev task)
             (''dispatch-'' @ t_id task @ ''-'' @ decimal (Date_now sy 0)) (w_gateway w) of
        (Some err, g) \<Rightarrow> (internal_error, w\<lparr>w_gateway := g\<rparr>)
      | (None, g) \<Rightarrow> dispatch_record sy i task agent session (w\<lparr>w_gateway := g\<rparr>))"

text \<open>The agent's active session, created when there is none.\<close>

definition dispatch_session ::
  "'g client \<Rightarrow> env \<Rightarrow> sys \<Rightarrow> string \<Rightarrow> task \<Rightarrow> agent \<Rightarrow> 'g world \<Rightarrow> reply \<times> 'g world" where
  "dispatch_session cl ev sy i task agent w =
     (case active_session (w_store w) (a_id agent) of
        Some session \<Rightarrow> dispatch_send cl ev sy i task agent session w
      | None \<Rightarrow>
          (let st1 = insert_session
                       \<lparr>s_id = uuidv4 sy 0, s_agent_id = a_id agent,
                        s_openclaw_session_id = sessionName (a_name agent),
                        s_channel = ''mission-control'', s_status = ''active'',
                        s_created_at = now sy, s_updated_at = now sy\<rparr> (w_store w);
               created = find (\<lambda>s. s_id s = uuidv4 sy 0) (openclaw_sessions st1);
               st2 = insert_event
                       \<lparr>e_id = uuidv4 sy 1, e_type = ''agent_status_changed'',
                        e_agent_id = Some (a_id agent), e_task_id = None,
                        e_message = a_name agent @ '' session created'',
                        e_created_at = now sy\<rparr> st1
           in case created of
                None \<Rightarrow> (Reply 500 (error_body ''Failed to create agent session''),
                          w\<lparr>w_store := st2\<rparr>)
              | Some session \<Rightarrow> dispatch_send cl ev sy i task agent session (w\<lparr>w_store := st2\<rparr>)))"

text \<open>\<open>POST /api/tasks/[id]/dispatch\<close>\<close>

definition dispatch_POST ::
  "'g client \<Rightarrow> env \<Rightarrow> sys \<Rightarrow> string \<Rightarrow> 'g world \<Rightarrow> reply \<times> 'g world" where
  "dispatch_POST cl ev sy i w =
     (case task_by_id (w_store w) i of
        None \<Rightarrow> (Reply 404 (error_body ''Task not found''), w)
      | Some task \<Rightarrow>
          (case (case t_assigned_agent_id task of
                   None \<Rightarrow> None
                 | Some aid \<Rightarrow> if aid = [] then None else Some aid) of
             None \<Rightarrow> (Reply 400 (error_body ''Task has no assigned agent''), w)
           | Some aid \<Rightarrow>
               (case agent_by_id (w_store w) aid of
                  None \<Rightarrow> (Reply 404 (error_body ''Assigned agent not found''), w)
                | Some agent \<Rightarrow>
                    if a_is_master agent \<and> otherOrchestrators (w_store w) agent task \<noteq> []
                    then (Reply 409 (conflict_body (otherOrchestrators (w_store w) agent task)), w)
                    else if isConnected cl (w_gateway w)
                    then dispatch_session cl ev sy i task agent w
                    else (case connect cl (w_gateway w) of
                            (Some err, g) \<Rightarrow>
                              (Reply 503 (error_body ''Failed to connect to OpenClaw Gateway''),
                               w\<lparr>w_gateway := g\<rparr>)
                          | (None, g) \<Rightarrow>
                              dispatch_session cl ev sy i task agent (w\<lparr>w_gateway := g\<rparr>)))))"

section \<open>Linking an agent to the gateway\<close>

text \<open>
  A session row as \<open>SELECT *\<close> returns it, with the columns the \<open>INSERT\<close> statements name.
\<close>

definition session_json :: "session \<Rightarrow> json" where
  "session_json s =
     JObj [(''id'', JStr (s_id s)), (''agent_id'', JStr (s_agent_id s)),
           (''openclaw_session_id'', JStr (s_openclaw_session_id s)),
           (''channel'', JStr (s_channel s)), (''status'', JStr (s_status s)),
           (''created_at'', JStr (s_created_at s)), (''updated_at'', JStr (s_updated_at s))]"

text \<open>
  The link is stored after the gateway has answered. The request body is \<open>None\<close> when
  \<open>request.json()\<close> rejects, and the handler then takes an empty object.
\<close>

definition link_store :: "sys \<Rightarrow> agent \<Rightarrow> json option \<Rightarrow> 'g world \<Rightarrow> reply \<times> 'g world" where
  "link_store sy agent request_body w =
     (let body = (case request_body of None \<Rightarrow> JObj [] | Some b \<Rightarrow> b) in
      if body = JNull then (internal_error, w)
      else (case text_or (classify (getprop body ''openclaw_session_id''))
                   (sessionName (a_name agent)) of
              None \<Rightarrow> (Unmodelled, w)
            | Some openclawSessionId \<Rightarrow>
                (let st1 = insert_session
                             \<lparr>s_id = uuidv4 sy 0, s_agent_id = a_id agent,
                              s_openclaw_session_id = openclawSessionId,
                              s_channel = ''mission-control'', s_status = ''active'',
                              s_created_at = now sy, s_updated_at = now sy\<rparr> (w_store w);
                     st2 = insert_event
                             \<lparr>e_id = uuidv4 sy 1, e_type = ''agent_status_changed'',
                              e_agent_id = Some (a_id agent), e_task_id = None,
                              e_message = a_name agent @ '' connected to OpenClaw Gateway'',
                              e_created_at = now sy\<rparr> st1
                 in (Reply 201
                       (JObj ((''linked'', JBool True)
                              # (case find (\<lambda>s. s_id s = uuidv4 sy 0) (openclaw_sessions st2) of
                                   None \<Rightarrow> []
                                 | Some s \<Rightarrow> [(''session'', session_json s)]))),
                     w\<lparr>w_store := st2\<rparr>))))"

definition link_verify :: "'g client \<Rightarrow> sys \<Rightarrow> agent \<Rightarrow> json option \<Rightarrow> 'g world \<Rightarrow> reply \<times> 'g world" where
  "link_verify cl sy agent request_body w =
     (case listSessions cl (w_gateway w) of
        (Some err, g) \<Rightarrow>
          (Reply 503 (error_body ''Connected but failed to communicate with OpenClaw Gateway''),
           w\<lparr>w_gateway := g\<rparr>)
      | (None, g) \<Rightarrow> link_store sy agent request_body (w\<lparr>w_gateway := g\<rparr>))"

text \<open>\<open>POST /api/agents/[id]/openclaw\<close>\<close>

definition link_POST :: "'g client \<Rightarrow> sys \<Rightarrow> string \<Rightarrow> json option \<Rightarrow> 'g world \<Rightarrow> reply \<times> 'g world" where
  "link_POST cl sy i request_body w =
     (case agent_by_id (w_store w) i of
        None \<Rightarrow> (Reply 404 (error_body ''Agent not found''), w)
      | Some agent \<Rightarrow>
          (case active_session (w_store w) i of
             Some existingSession \<Rightarrow>
               (Reply 409
                  (JObj [(''error'', JStr ''Agent is already linked to an OpenClaw session''),
                         (''session'', session_json existingSession)]), w)
           | None \<Rightarrow>
               if isConnected cl (w_gateway w) then link_verify cl sy agent request_body w
               else (case connect cl (w_gateway w) of
                       (Some err, g) \<Rightarrow>
                         (Reply 503 (error_body ''Failed to connect to OpenClaw Gateway''),
                          w\<lparr>w_gateway := g\<rparr>)
                     | (None, g) \<Rightarrow> link_verify cl sy agent request_body (w\<lparr>w_gateway := g\<rparr>))))"

definition deactivate_session :: "string \<Rightarrow> string \<Rightarrow> store \<Rightarrow> store" where
  "deactivate_session at i st =
     st\<lparr>openclaw_sessions :=
          map (\<lambda>s. if s_id s = i then s\<lparr>s_status := ''inactive'', s_updated_at := at\<rparr> else s)
            (openclaw_sessions st)\<rparr>"

text \<open>\<open>DELETE /api/agents/[id]/openclaw\<close>; it does not call the gateway.\<close>

definition unlink_DELETE :: "sys \<Rightarrow> string \<Rightarrow> store \<Rightarrow> reply \<times> store" where
  "unlink_DELETE sy i st =
     (case agent_by_id st i of
        None \<Rightarrow> (Reply 404 (error_body ''Agent not found''), st)
      | Some agent \<Rightarrow>
          (case active_session st i of
             None \<Rightarrow> (Reply 404 (error_body ''Agent is not linked to an OpenClaw session''), st)
           | Some existingSession \<Rightarrow>
               (Reply 200 (JObj [(''linked'', JBool False), (''success'', JBool True)]),
                insert_event
                  \<lparr>e_id = uuidv4 sy 0, e_type = ''agent_status_changed'', e_agent_id = Some i,
                   e_task_id = None,
                   e_message = a_name agent @ '' disconnected from OpenClaw Gateway'',
                   e_created_at = now sy\<rparr>
                  (deactivate_session (now sy) (s_id existingSession) st))))"

section \<open>Planning\<close>

definition PLANNING_SESSION_PREFIX :: string where
  "PLANNING_SESSION_PREFIX = ''agent:main:planning:''"

text \<open>
  \<open>getMessagesFromOpenClaw\<close>: the texts of the assistant messages of the session, each
  the first block of type \<open>text\<close> when its text is not empty; the empty list when
  connecting or the request fails.
\<close>

definition first_text :: "gw_message \<Rightarrow> string option" where
  "first_text msg =
     (case gm_content msg of
        None \<Rightarrow> None
      | Some blocks \<Rightarrow>
          (case find (\<lambda>c. gb_type c = ''text'') blocks of
             None \<Rightarrow> None
           | Some c \<Rightarrow>
               (case gb_text c of
                  None \<Rightarrow> None
                | Some t \<Rightarrow> if t = [] then None else Some t)))"

definition assistant_texts :: "gw_message list \<Rightarrow> (string \<times> string) list" where
  "assistant_texts msgs =
     concat (map (\<lambda>msg. if gm_role msg = ''assistant''
                         then (case first_text msg of
                                 None \<Rightarrow> []
                               | Some t \<Rightarrow> [(''assistant'', t)])
                         else []) msgs)"

definition ensure_connected :: "'g client \<Rightarrow> 'g \<Rightarrow> string option \<times> 'g" where
  "ensure_connected cl g = (if isConnected cl g then (None, g) else connect cl g)"

definition getMessagesFromOpenClaw ::
  "'g client \<Rightarrow> string \<Rightarrow> 'g \<Rightarrow> (string \<times> string) list \<times> 'g" where
  "getMessagesFromOpenClaw cl sessionKey g =
     (case ensure_connected cl g of
        (Some err, g1) \<Rightarrow> ([], g1)
      | (None, g1) \<Rightarrow>
          (case chat_history cl sessionKey 20 g1 of
             (Inl err, g2) \<Rightarrow> ([], g2)
           | (Inr msgs, g2) \<Rightarrow> (assistant_texts msgs, g2)))"

text \<open>
  The loop \<open>for (let i = 0; i < 30; i++)\<close>: each round waits 500 ms and asks for the
  messages; the last assistant message ends it. The result is the response, the gateway
  after, and the delays waited for.
\<close>

function poll :: "'g client \<Rightarrow> string \<Rightarrow> nat \<Rightarrow> 'g \<Rightarrow> string option \<times> 'g \<times> nat list" where
  "poll cl sessionKey i g =
     (if i < 30 then
        (case getMessagesFromOpenClaw cl sessionKey g of
           (transcriptMessages, g1) \<Rightarrow>
             (case (if transcriptMessages \<noteq> []
                    then find (\<lambda>m. fst m = ''assistant'') (rev transcriptMessages)
                    else None) of
                Some lastAssistant \<Rightarrow> (Some (snd lastAssistant), g1, [500])
              | None \<Rightarrow>
                  (case poll cl sessionKey (Suc i) g1 of
                     (response, g2, slept) \<Rightarrow> (response, g2, 500 # slept))))
      else (None, g, []))"
  by pat_completeness auto
termination
  by (relation "measure (\<lambda>(cl, sessionKey, i, g). 30 - i)") auto

declare poll.simps [simp del]

definition planningPrompt :: "task \<Rightarrow> string" where
  \<open>planningPrompt task =
     join_lines
       [''PLANNING REQUEST'',
        [],
        ''Task Title: '' @ t_title task,
        ''Task Description: ''
          @ (case t_description task of
               None \<Rightarrow> ''No description provided''
             | Some d \<Rightarrow> if d = [] then ''No description provided'' else d),
        [],
        ''You are starting a planning session for this task. Read PLANNING.md for your protocol.'',
        [],
        ''Generate your FIRST question to understand what the user needs. Remember:'',
        ''- Questions must be multiple choice'',
        ''- Include an "Other" option'',
        ''- Be specific to THIS task, not generic'',
        [],
        ''Respond with ONLY valid JSON in this format:'',
        ''{'',
        ''  "question": "Your question here?",'',
        ''  "options": ['',
        ''    {"id": "A", "label": "First option"},'',
        ''    {"id": "B", "label": "Second option"},'',
        ''    {"id": "C", "label": "Third option"},'',
        ''    {"id": "other", "label": "Other"}'',
        ''  ]'',
        ''}'']\<close>

definition messages_json :: "planning_message list \<Rightarrow> json" where
  "messages_json ms =
     JArr (map (\<lambda>m. JObj [(''role'', JStr (pm_role m)), (''content'', JStr (pm_content m)),
                          (''timestamp'', JNum (int (pm_timestamp m)) 0)]) ms)"

definition start_planning :: "string \<Rightarrow> planning_message list \<Rightarrow> string \<Rightarrow> store \<Rightarrow> store" where
  "start_planning sessionKey ms i st =
     st\<lparr>tasks := map (\<lambda>t. if t_id t = i
                            then t\<lparr>t_planning_session_key := Some sessionKey,
                                   t_planning_messages := Some ms, t_status := ''planning''\<rparr>
                            else t) (tasks st)\<rparr>"

definition set_planning_messages :: "planning_message list \<Rightarrow> string \<Rightarrow> store \<Rightarrow> store" where
  "set_planning_messages ms i st =
     st\<lparr>tasks := map (\<lambda>t. if t_id t = i then t\<lparr>t_planning_messages := Some ms\<rparr> else t) (tasks st)\<rparr>"

definition planning_failed :: "string \<Rightarrow> reply" where
  "planning_failed msg = Reply 500 (error_body (''Failed to start planning: '' @ msg))"

definition still_waiting :: "string \<Rightarrow> planning_message list \<Rightarrow> reply" where
  "still_waiting sessionKey ms =
     Reply 200
       (JObj [(''success'', JBool True), (''sessionKey'', JStr sessionKey),
              (''messages'', messages_json ms),
              (''note'', JStr ''Planning started, waiting for response. Poll GET endpoint for updates.'')])"

text \<open>
  The reply once a response is there. \<open>parsed && 'question' in parsed\<close>: the operator
  \<open>in\<close> throws on a truthy value that is neither an object nor an array.
\<close>

definition planning_reply :: "runtime \<Rightarrow> string \<Rightarrow> planning_message list \<Rightarrow> string \<Rightarrow> reply" where
  "planning_reply rt sessionKey ms response =
     (let parsed = extractJSON (parseJSON rt) response;
          raw = Reply 200
                  (JObj [(''success'', JBool True), (''sessionKey'', JStr sessionKey),
                         (''rawResponse'', JStr response), (''messages'', messages_json ms)])
      in if \<not> truthy parsed then raw
         else (case parsed of
                 JObj kvs \<Rightarrow>
                   if getprop parsed ''question'' \<noteq> None
                   then Reply 200
                          (JObj [(''success'', JBool True), (''sessionKey'', JStr sessionKey),
                                 (''currentQuestion'', parsed), (''messages'', messages_json ms)])
                   else raw
               | JArr vs \<Rightarrow> raw
               | _ \<Rightarrow> planning_failed (in_TypeError rt ''question'' parsed)))"

text \<open>After the prompt has been sent: the task is marked, then the wait.\<close>

definition planning_wait ::
  "'g client \<Rightarrow> runtime \<Rightarrow> sys \<Rightarrow> string \<Rightarrow> string \<Rightarrow> string \<Rightarrow> 'g world \<Rightarrow> reply \<times> 'g world" where
  "planning_wait cl rt sy taskId sessionKey prompt w =
     (let ms = [\<lparr>pm_role = ''user'', pm_content = prompt, pm_timestamp = Date_now sy 1\<rparr>];
          st1 = start_planning sessionKey ms taskId (w_store w)
      in case poll cl sessionKey 0 (w_gateway w) of
           (response, g, slept) \<Rightarrow>
             (let w1 = w\<lparr>w_store := st1, w_gateway := g, w_slept := w_slept w @ slept\<rparr> in
              case (case response of
                      None \<Rightarrow> None
                    | Some r \<Rightarrow> if r = [] then None else Some r) of
                None \<Rightarrow> (still_waiting sessionKey ms, w1)
              | Some r \<Rightarrow>
                  (let ms2 = ms @ [\<lparr>pm_role = ''assistant'', pm_content = r,
                                     pm_timestamp = Date_now sy 2\<rparr>]
                   in (planning_reply rt sessionKey ms2 r,
                       w1\<lparr>w_store := set_planning_messages ms2 taskId st1\<rparr>))))"

text \<open>\<open>POST /api/tasks/[id]/planning\<close>\<close>

definition planning_POST ::
  "'g client \<Rightarrow> runtime \<Rightarrow> sys \<Rightarrow> string \<Rightarrow> 'g world \<Rightarrow> reply \<times> 'g world" where
  "planning_POST cl rt sy taskId w =
     (case task_by_id (w_store w) taskId of
        None \<Rightarrow> (Reply 404 (error_body ''Task not found''), w)
      | Some task \<Rightarrow>
          (case (case t_planning_session_key task of
                   None \<Rightarrow> None
                 | Some k \<Rightarrow> if k = [] then None else Some k) of
             Some k \<Rightarrow>
               (Reply 400 (JObj [(''error'', JStr ''Planning already started''),
                                 (''sessionKey'', JStr k)]), w)
           | None \<Rightarrow>
               (let sessionKey = PLANNING_SESSION_PREFIX @ taskId;
                    prompt = planningPrompt task
                in case ensure_connected cl (w_gateway w) of
                     (Some err, g1) \<Rightarrow> (planning_failed err, w\<lparr>w_gateway := g1\<rparr>)
                   | (None, g1) \<Rightarrow>
                       (case chat_send cl sessionKey prompt
                               (''planning-start-'' @ taskId @ ''-'' @ decimal (Date_now sy 0)) g1 of
                          (Some err, g2) \<Rightarrow> (planning_failed err, w\<lparr>w_gateway := g2\<rparr>)
                        | (None, g2) \<Rightarrow>
                            planning_wait cl rt sy taskId sessionKey prompt
                              (w\<lparr>w_gateway := g2\<rparr>)))))"

section \<open>Example data\<close>

text \<open>
  A clock, identifiers, a configuration and a small store, to run the handlers on. The
  keyed hash of the example runtime is a stand-in: a request is accepted when its header
  repeats it, whatever the function is.
\<close>


definition NBSP :: string where
  "NBSP = [CHR 0xC2, CHR 0xA0]"

definition LINE_SEPARATOR :: string where
  "LINE_SEPARATOR = [CHR 0xE2, CHR 0x80, CHR 0xA8]"

definition BOM :: string where
  "BOM = [CHR 0xEF, CHR 0xBB, CHR 0xBF]"

definition sys0 :: sys where
  "sys0 = \<lparr>now = ''2026-02-01T10:00:00.000Z'', Date_now = (\<lambda>k. 1769940000000 + k),
           uuidv4 = (\<lambda>k. ''uuid-'' @ decimal k)\<rparr>"

definition rt0 :: runtime where
  "rt0 = \<lparr>parseJSON = JSON_parse, hmac_sha256_hex = (\<lambda>key body. ''mac:'' @ key @ '':'' @ body),
          in_TypeError = (\<lambda>key v. ''Cannot use in operator to search for '' @ key)\<rparr>"

definition env_open :: env where
  "env_open = \<lparr>WEBHOOK_SECRET = None, MC_API_TOKEN = None, projectsPath = ''/projects'',
               missionControlUrl = ''http://localhost:3000''\<rparr>"

definition env_secret :: env where
  "env_secret = env_open\<lparr>WEBHOOK_SECRET := Some ''s3cret''\<rparr>"

definition task0 :: task where
  "task0 = \<lparr>t_id = ''t0'', t_title = ''Build auth'', t_description = None, t_status = ''assigned'',
            t_priority = ''normal'', t_assigned_agent_id = Some ''a1'', t_workspace_id = ''w1'',
            t_due_date = None, t_updated_at = ''2026-01-01T09:00:00.000Z'',
            t_planning_session_key = None, t_planning_messages = None\<rparr>"

definition agent0 :: agent where
  "agent0 = \<lparr>a_id = ''a1'', a_name = ''Engineering'', a_role = ''builder'', a_is_master = False,
             a_status = ''working'', a_workspace_id = ''w1'',
             a_updated_at = ''2026-01-01T09:00:00.000Z''\<rparr>"

definition session0 :: session where
  "session0 = \<lparr>s_id = ''s1'', s_agent_id = ''a1'',
               s_openclaw_session_id = ''mission-control-engineering'',
               s_channel = ''mission-control'', s_status = ''active'',
               s_created_at = ''2026-01-01T09:00:00.000Z'',
               s_updated_at = ''2026-01-01T09:00:00.000Z''\<rparr>"

definition store0 :: store where
  "store0 =
     \<lparr>tasks = [task0,
               task0\<lparr>t_id := ''t1'', t_status := ''in_progress'',
                      t_updated_at := ''2026-01-03T09:00:00.000Z''\<rparr>,
               task0\<lparr>t_id := ''t2'', t_status := ''done'',
                      t_updated_at := ''2026-01-05T09:00:00.000Z''\<rparr>,
               task0\<lparr>t_id := ''t3'', t_status := ''review'',
                      t_updated_at := ''2026-01-04T09:00:00.000Z''\<rparr>],
      agents = [agent0],
      openclaw_sessions = [session0],
      events = [], task_activities = [], task_deliverables = []\<rparr>"

text \<open>
  A workspace with several orchestrators, and a gateway that accepts every call, keeps
  what was sent, counts the history requests and never has a message to show.
\<close>

definition store_masters :: store where
  "store_masters =
     store0\<lparr>agents :=
               [agent0,
                agent0\<lparr>a_id := ''m1'', a_name := ''Charlie'', a_role := ''orchestrator'',
                        a_is_master := True, a_status := ''standby''\<rparr>,
                agent0\<lparr>a_id := ''m2'', a_name := ''Delta'', a_role := ''orchestrator'',
                        a_is_master := True, a_status := ''working''\<rparr>,
                agent0\<lparr>a_id := ''m3'', a_name := ''Echo'', a_role := ''orchestrator'',
                        a_is_master := True, a_status := ''offline''\<rparr>,
                agent0\<lparr>a_id := ''m4'', a_name := ''Foxtrot'', a_role := ''orchestrator'',
                        a_is_master := True, a_status := ''standby'', a_workspace_id := ''w2''\<rparr>],
             tasks := tasks store0 @ [task0\<lparr>t_id := ''t9'', t_assigned_agent_id := Some ''m1''\<rparr>]\<rparr>"

record gw_state =
  gw_connected :: bool
  gw_sent :: "(string \<times> string) list"
  gw_history_calls :: nat

definition client0 :: "gw_state client" where
  "client0 =
     \<lparr>isConnected = gw_connected,
      connect = (\<lambda>g. (None, g\<lparr>gw_connected := True\<rparr>)),
      listSessions = (\<lambda>g. (None, g)),
      chat_send = (\<lambda>key msg idem g. (None, g\<lparr>gw_sent := gw_sent g @ [(key, msg)]\<rparr>)),
      chat_history = (\<lambda>key lim g. (Inr [], g\<lparr>gw_history_calls := Suc (gw_history_calls g)\<rparr>))\<rparr>"

definition gw0 :: gw_state where
  "gw0 = \<lparr>gw_connected = False, gw_sent = [], gw_history_calls = 0\<rparr>"

definition world0 :: "gw_state world" where
  "world0 = \<lparr>w_store = store0, w_gateway = gw0, w_broadcast = [], w_slept = []\<rparr>"

definition world_masters :: "gw_state world" where
  "world_masters = world0\<lparr>w_store := store_masters\<rparr>"

section \<open>The bound of the parser\<close>

lemma skip_ws_length: "length (skip_ws s) \<le> length s"
  by (simp add: skip_ws_def length_dropWhile_le)

lemma startsWith_drop1: "startsWith [c] s \<Longrightarrow> length (drop 1 s) < length s"
  by (cases s) (auto simp: startsWith_def)

lemma parse_string_shorter: "parse_string cs = Some (s, r) \<Longrightarrow> length r < length cs"
proof (induction cs arbitrary: s r rule: parse_string.induct)
  case 1
  then show ?case by simp
next
  case (2 c cs)
  show ?case
  proof (cases "c = CHR 0x22")
    case True
    with "2.prems" show ?thesis by simp
  next
    case nq: False
    show ?thesis
    proof (cases "c = CHR 0x5C")
      case False
      with nq "2.prems" obtain s' where "parse_string cs = Some (s', r)"
        by (auto split: if_splits)
      from "2.IH"(3) [OF nq False _ this] "2.prems" nq False show ?thesis
        by (auto split: if_splits)
    next
      case True
      with nq "2.prems" obtain e t where cs: "cs = e # t"
        by (cases cs) auto
      show ?thesis
      proof (cases "e = CHR ''u''")
        case u: True
        with nq True cs "2.prems" obtain n s' where
          l: "\<not> length t < 4" and h: "hex_value (take 4 t) 0 = Some n"
          and p: "parse_string (drop 4 t) = Some (s', r)"
          by (auto split: if_splits option.splits)
        from "2.IH"(1) [OF nq True cs u l h p] cs show ?thesis by simp
      next
        case nu: False
        with nq True cs "2.prems" obtain d s' where
          un: "unescape e = Some d" and p: "parse_string t = Some (s', r)"
          by (auto split: if_splits option.splits)
        from "2.IH"(2) [OF nq True cs nu un p] cs show ?thesis by simp
      qed
    qed
  qed
qed

lemma parse_number_shorter:
  assumes "parse_number cs = Some (v, r)"
  shows "length r < length cs"
proof -
  define r0 where "r0 = (if startsWith ''-'' cs then drop 1 cs else cs)"
  define ip where "ip = (if startsWith ''0'' r0 then ''0'' else takeWhile is_digit r0)"
  define r1 where "r1 = drop (length ip) r0"
  define fp where "fp = (if startsWith ''.'' r1 then takeWhile is_digit (drop 1 r1) else [])"
  define r2 where "r2 = (if startsWith ''.'' r1 then drop (1 + length fp) r1 else r1)"
  define has_exp where "has_exp = (startsWith ''e'' r2 \<or> startsWith ''E'' r2)"
  define r3 where "r3 = (if has_exp then drop 1 r2 else r2)"
  define r4 where
    "r4 = (if has_exp \<and> (startsWith ''-'' r3 \<or> startsWith ''+'' r3) then drop 1 r3 else r3)"
  define ep where "ep = (if has_exp then takeWhile is_digit r4 else [])"
  have res: "ip \<noteq> [] \<and> r = drop (length ep) r4"
    using assms
    unfolding parse_number_def Let_def r0_def [symmetric]
    unfolding ip_def [symmetric]
    unfolding r1_def [symmetric]
    unfolding fp_def [symmetric]
    unfolding r2_def [symmetric]
    unfolding has_exp_def [symmetric]
    unfolding r3_def [symmetric]
    unfolding r4_def [symmetric]
    unfolding ep_def [symmetric]
    by (auto split: if_splits)
  have l0: "length r0 \<le> length cs" by (simp add: r0_def)
  have "length ip \<le> length r0"
    by (cases r0) (auto simp: ip_def startsWith_def length_takeWhile_le)
  with res have l1: "length r1 < length r0" by (cases ip) (auto simp: r1_def)
  have l2: "length r2 \<le> length r1" by (simp add: r2_def)
  have l3: "length r3 \<le> length r2" by (simp add: r3_def)
  have l4: "length r4 \<le> length r3" by (simp add: r4_def)
  from res have "length r \<le> length r4" by simp
  with l0 l1 l2 l3 l4 show ?thesis by linarith
qed


lemma startsWith_shorter: "startsWith p s \<Longrightarrow> p \<noteq> [] \<Longrightarrow> length (drop (length p) s) < length s"
  by (cases s) (auto simp: startsWith_def)

lemma fuel_adequate:
  "(parse_value n cs = Some (v, r) \<longrightarrow>
      length r < length cs \<and> (\<forall>m. length cs - length r \<le> m \<longrightarrow> parse_value m cs = Some (v, r)))
   \<and> (parse_elements n cs acc = Some (v, r) \<longrightarrow>
      length r < length cs \<and> (\<forall>m. length cs - length r \<le> m \<longrightarrow> parse_elements m cs acc = Some (v, r)))
   \<and> (parse_members n cs acc2 = Some (v, r) \<longrightarrow>
      length r < length cs \<and> (\<forall>m. length cs - length r \<le> m \<longrightarrow> parse_members m cs acc2 = Some (v, r)))"
proof (induction n arbitrary: cs acc acc2 v r)
  case 0
  show ?case by simp
next
  case (Suc n)
  have ihv: "length r < length cs \<and> (\<forall>m. length cs - length r \<le> m \<longrightarrow> parse_value m cs = Some (v, r))"
    if "parse_value n cs = Some (v, r)" for cs v r
    using Suc.IH [of cs v r] that by blast
  have ihe: "length r < length cs \<and> (\<forall>m. length cs - length r \<le> m \<longrightarrow> parse_elements m cs acc = Some (v, r))"
    if "parse_elements n cs acc = Some (v, r)" for cs acc v r
    using Suc.IH [of cs v r acc] that by blast
  have ihm: "length r < length cs \<and> (\<forall>m. length cs - length r \<le> m \<longrightarrow> parse_members m cs acc2 = Some (v, r))"
    if "parse_members n cs acc2 = Some (v, r)" for cs acc2 v r
    using Suc.IH [of cs v r _ acc2] that by blast
  have pred: "\<exists>k. m = Suc k \<and> d \<le> k" if "Suc d \<le> m" for m d :: nat
    using that by (cases m) auto
  have for_value: "length r < length cs \<and> (\<forall>m. length cs - length r \<le> m \<longrightarrow> parse_value m cs = Some (v, r))"
    if pv: "parse_value (Suc n) cs = Some (v, r)"
  proof -
    define s where "s = skip_ws cs"
    have ls: "length s \<le> length cs" by (simp add: s_def skip_ws_length)
    consider (obj) "startsWith ''{'' s"
      | (arr) "\<not> startsWith ''{'' s" "startsWith ''['' s"
      | (flat) "\<not> startsWith ''{'' s" "\<not> startsWith ''['' s"
      by blast
    then show ?thesis
    proof cases
      case obj
      define r' where "r' = skip_ws (drop 1 s)"
      have lr': "length r' < length cs"
        using startsWith_shorter [OF obj] skip_ws_length [of "drop 1 s"] ls
        by (simp add: r'_def)
      show ?thesis
      proof (cases "startsWith ''}'' r'")
        case True
        have eq: "parse_value (Suc k) cs = Some (JObj [], drop 1 r')" for k
          using obj True unfolding s_def r'_def by (simp add: Let_def)
        from eq [of n] pv have vr: "v = JObj []" "r = drop 1 r'" by simp_all
        have lr: "length r < length r'" using startsWith_shorter [OF True] vr by simp
        have "parse_value m cs = Some (v, r)" if "length cs - length r \<le> m" for m
        proof -
          from that lr lr' have "Suc 0 \<le> m" by linarith
          from pred [OF this] obtain k where "m = Suc k" by blast
          with eq [of k] vr show ?thesis by simp
        qed
        with lr lr' show ?thesis by simp
      next
        case False
        have eq: "parse_value (Suc k) cs = parse_members k r' []" for k
          using obj False unfolding s_def r'_def by (simp add: Let_def)
        from eq [of n] pv have "parse_members n r' [] = Some (v, r)" by simp
        from ihm [OF this] have lr: "length r < length r'"
          and en: "\<And>m. length r' - length r \<le> m \<Longrightarrow> parse_members m r' [] = Some (v, r)"
          by blast+
        have "parse_value m cs = Some (v, r)" if "length cs - length r \<le> m" for m
        proof -
          from that lr lr' have "Suc (length r' - length r) \<le> m" by linarith
          from pred [OF this] obtain k where "m = Suc k" "length r' - length r \<le> k" by blast
          with eq [of k] en [of k] show ?thesis by simp
        qed
        with lr lr' show ?thesis by simp
      qed
    next
      case arr
      define r' where "r' = skip_ws (drop 1 s)"
      have lr': "length r' < length cs"
        using startsWith_shorter [OF arr(2)] skip_ws_length [of "drop 1 s"] ls
        by (simp add: r'_def)
      show ?thesis
      proof (cases "startsWith '']'' r'")
        case True
        have eq: "parse_value (Suc k) cs = Some (JArr [], drop 1 r')" for k
          using arr True unfolding s_def r'_def by (simp add: Let_def)
        from eq [of n] pv have vr: "v = JArr []" "r = drop 1 r'" by simp_all
        have lr: "length r < length r'" using startsWith_shorter [OF True] vr by simp
        have "parse_value m cs = Some (v, r)" if "length cs - length r \<le> m" for m
        proof -
          from that lr lr' have "Suc 0 \<le> m" by linarith
          from pred [OF this] obtain k where "m = Suc k" by blast
          with eq [of k] vr show ?thesis by simp
        qed
        with lr lr' show ?thesis by simp
      next
        case False
        have eq: "parse_value (Suc k) cs = parse_elements k r' []" for k
          using arr False unfolding s_def r'_def by (simp add: Let_def)
        from eq [of n] pv have "parse_elements n r' [] = Some (v, r)" by simp
        from ihe [OF this] have lr: "length r < length r'"
          and en: "\<And>m. length r' - length r \<le> m \<Longrightarrow> parse_elements m r' [] = Some (v, r)"
          by blast+
        have "parse_value m cs = Some (v, r)" if "length cs - length r \<le> m" for m
        proof -
          from that lr lr' have "Suc (length r' - length r) \<le> m" by linarith
          from pred [OF this] obtain k where "m = Suc k" "length r' - length r \<le> k" by blast
          with eq [of k] en [of k] show ?thesis by simp
        qed
        with lr lr' show ?thesis by simp
      qed
    next
      case flat
      have eq: "parse_value (Suc k) cs = parse_value (Suc n) cs" for k
        using flat unfolding s_def by (simp add: Let_def)
      have lr: "length r < length s"
      proof -
        from pv flat have
          "(startsWith [CHR 0x22] s \<and> (\<exists>x. parse_string (drop 1 s) = Some (x, r)))
           \<or> (startsWith ''true'' s \<and> r = drop 4 s)
           \<or> (startsWith ''false'' s \<and> r = drop 5 s)
           \<or> (startsWith ''null'' s \<and> r = drop 4 s)
           \<or> parse_number s = Some (v, r)"
          unfolding s_def by (auto simp: Let_def split: if_splits)
        then show ?thesis
          using startsWith_shorter [of "[CHR 0x22]" s] startsWith_shorter [of "''true''" s]
            startsWith_shorter [of "''false''" s] startsWith_shorter [of "''null''" s]
          by (auto dest!: parse_string_shorter parse_number_shorter)
      qed
      have "parse_value m cs = Some (v, r)" if "length cs - length r \<le> m" for m
      proof -
        from that lr ls have "Suc 0 \<le> m" by linarith
        from pred [OF this] obtain k where "m = Suc k" by blast
        with eq [of k] pv show ?thesis by simp
      qed
      with lr ls show ?thesis by simp
    qed
  qed
  have for_elements: "length r < length cs \<and> (\<forall>m. length cs - length r \<le> m \<longrightarrow> parse_elements m cs acc = Some (v, r))"
    if pe: "parse_elements (Suc n) cs acc = Some (v, r)"
  proof -
    from pe obtain v1 r1 where p1: "parse_value n cs = Some (v1, r1)"
      by (auto split: option.splits)
    from ihv [OF p1] have l1: "length r1 < length cs"
      and e1: "\<And>m. length cs - length r1 \<le> m \<Longrightarrow> parse_value m cs = Some (v1, r1)"
      by blast+
    define s where "s = skip_ws r1"
    have ls: "length s \<le> length r1" by (simp add: s_def skip_ws_length)
    show ?thesis
    proof (cases "startsWith '','' s")
      case True
      have eq: "parse_elements (Suc k) cs acc = parse_elements k (drop 1 s) (acc @ [v1])"
        if "parse_value k cs = Some (v1, r1)" for k
        using that True unfolding s_def by (simp add: Let_def)
      from eq [OF p1] pe have "parse_elements n (drop 1 s) (acc @ [v1]) = Some (v, r)" by simp
      from ihe [OF this] have lr: "length r < length (drop 1 s)"
        and en: "\<And>m. length (drop 1 s) - length r \<le> m \<Longrightarrow>
                   parse_elements m (drop 1 s) (acc @ [v1]) = Some (v, r)"
        by blast+
      have ld: "length (drop 1 s) < length s" using startsWith_shorter [OF True] by simp
      have "parse_elements m cs acc = Some (v, r)" if "length cs - length r \<le> m" for m
      proof -
        from that lr ld ls l1 have "Suc (length cs - length r1) \<le> m"
          and "Suc (length (drop 1 s) - length r) \<le> m" by linarith+
        from pred [OF this(1)] pred [OF this(2)] obtain k where
          "m = Suc k" "length cs - length r1 \<le> k" "length (drop 1 s) - length r \<le> k"
          by auto
        with eq [OF e1 [of k]] en [of k] show ?thesis by simp
      qed
      with lr ld ls l1 show ?thesis by simp
    next
      case False
      with pe p1 have cl: "startsWith '']'' s" and vr: "v = JArr (acc @ [v1])" "r = drop 1 s"
        unfolding s_def by (auto simp: Let_def split: if_splits)
      have eq: "parse_elements (Suc k) cs acc = Some (v, r)"
        if "parse_value k cs = Some (v1, r1)" for k
        using that False cl vr unfolding s_def by (simp add: Let_def)
      have lr: "length r < length s" using startsWith_shorter [OF cl] vr by simp
      have "parse_elements m cs acc = Some (v, r)" if "length cs - length r \<le> m" for m
      proof -
        from that lr ls l1 have "Suc (length cs - length r1) \<le> m" by linarith
        from pred [OF this] obtain k where "m = Suc k" "length cs - length r1 \<le> k" by blast
        with eq [OF e1 [of k]] show ?thesis by simp
      qed
      with lr ls l1 show ?thesis by simp
    qed
  qed
  have for_members: "length r < length cs \<and> (\<forall>m. length cs - length r \<le> m \<longrightarrow> parse_members m cs acc2 = Some (v, r))"
    if pm: "parse_members (Suc n) cs acc2 = Some (v, r)"
  proof -
    define s where "s = skip_ws cs"
    have ls: "length s \<le> length cs" by (simp add: s_def skip_ws_length)
    from pm have q: "startsWith [CHR 0x22] s"
      unfolding s_def by (auto simp: Let_def split: if_splits)
    with pm obtain k1 r1 where ps: "parse_string (drop 1 s) = Some (k1, r1)"
      unfolding s_def by (auto simp: Let_def split: option.splits)
    define s1 where "s1 = skip_ws r1"
    have l1: "length s1 < length cs"
      using parse_string_shorter [OF ps] skip_ws_length [of r1] ls by (simp add: s1_def)
    from pm q ps have colon: "startsWith '':'' s1"
      unfolding s_def s1_def by (auto simp: Let_def split: if_splits)
    with pm q ps obtain v1 r2 where p2: "parse_value n (drop 1 s1) = Some (v1, r2)"
      unfolding s_def s1_def by (auto simp: Let_def split: option.splits)
    from ihv [OF p2] have l2: "length r2 < length (drop 1 s1)"
      and e2: "\<And>m. length (drop 1 s1) - length r2 \<le> m \<Longrightarrow>
                 parse_value m (drop 1 s1) = Some (v1, r2)"
      by blast+
    have ld1: "length (drop 1 s1) < length s1" using startsWith_shorter [OF colon] by simp
    define s2 where "s2 = skip_ws r2"
    have ls2: "length s2 \<le> length r2" by (simp add: s2_def skip_ws_length)
    show ?thesis
    proof (cases "startsWith '','' s2")
      case True
      have eq: "parse_members (Suc k) cs acc2 = parse_members k (drop 1 s2) (acc2 @ [(k1, v1)])"
        if "parse_value k (drop 1 s1) = Some (v1, r2)" for k
        using that True q ps colon
        unfolding s_def s1_def s2_def by (simp add: Let_def)
      from eq [OF p2] pm have "parse_members n (drop 1 s2) (acc2 @ [(k1, v1)]) = Some (v, r)"
        by simp
      from ihm [OF this] have lr: "length r < length (drop 1 s2)"
        and en: "\<And>m. length (drop 1 s2) - length r \<le> m \<Longrightarrow>
                   parse_members m (drop 1 s2) (acc2 @ [(k1, v1)]) = Some (v, r)"
        by blast+
      have ld2: "length (drop 1 s2) < length s2" using startsWith_shorter [OF True] by simp
      have "parse_members m cs acc2 = Some (v, r)" if "length cs - length r \<le> m" for m
      proof -
        from that lr ld2 ls2 l2 ld1 l1 have "Suc (length (drop 1 s1) - length r2) \<le> m"
          and "Suc (length (drop 1 s2) - length r) \<le> m" by linarith+
        from pred [OF this(1)] pred [OF this(2)] obtain k where
          "m = Suc k" "length (drop 1 s1) - length r2 \<le> k" "length (drop 1 s2) - length r \<le> k"
          by auto
        with eq [OF e2 [of k]] en [of k] show ?thesis by simp
      qed
      with lr ld2 ls2 l2 ld1 l1 show ?thesis by simp
    next
      case False
      with pm q ps colon p2 have cl: "startsWith ''}'' s2"
        and vr: "v = JObj (acc2 @ [(k1, v1)])" "r = drop 1 s2"
        unfolding s_def s1_def s2_def by (auto simp: Let_def split: if_splits)
      have eq: "parse_members (Suc k) cs acc2 = Some (v, r)"
        if "parse_value k (drop 1 s1) = Some (v1, r2)" for k
        using that False cl vr q ps colon
        unfolding s_def s1_def s2_def by (simp add: Let_def)
      have lr: "length r < length s2" using startsWith_shorter [OF cl] vr by simp
      have "parse_members m cs acc2 = Some (v, r)" if "length cs - length r \<le> m" for m
      proof -
        from that lr ls2 l2 ld1 l1 have "Suc (length (drop 1 s1) - length r2) \<le> m" by linarith
        from pred [OF this] obtain k where "m = Suc k" "length (drop 1 s1) - length r2 \<le> k"
          by blast
        with eq [OF e2 [of k]] show ?thesis by simp
      qed
      with lr ls2 l2 ld1 l1 show ?thesis by simp
    qed
  qed
  from for_value for_elements for_members show ?case by blast
qed

text \<open>
  The bound of \<open>JSON_parse\<close> is never what makes a text fail: a value that some bound
  reads is read with the bound that \<open>JSON_parse\<close> uses.
\<close>

lemma JSON_parse_fuel:
  assumes "parse_value n s = Some (v, r)"
  shows "parse_value (Suc (length s)) s = Some (v, r)"
proof -
  from fuel_adequate [of n s v r] assms
  have all: "\<forall>m. length s - length r \<le> m \<longrightarrow> parse_value m s = Some (v, r)" by blast
  have "length s - length r \<le> Suc (length s)" by simp
  with all show ?thesis by blast
qed

section \<open>The extractor against its three strategies\<close>

lemma prefix_len_split:
  assumes "prefix_len ps s \<noteq> 0"
  shows "\<exists>p \<in> set ps. length p = prefix_len ps s \<and> s = p @ drop (prefix_len ps s) s"
proof -
  from assms obtain p where f: "find (\<lambda>p. startsWith p s) ps = Some p"
    by (auto simp: prefix_len_def split: option.splits)
  then obtain i where "i < length ps" and "startsWith (ps ! i) s" and "p = ps ! i"
    unfolding find_Some_iff by blast
  then have mem: "p \<in> set ps" and sw: "take (length p) s = p"
    by (auto simp: startsWith_def)
  from f have len: "prefix_len ps s = length p" by (simp add: prefix_len_def)
  have "s = take (length p) s @ drop (length p) s" by simp
  with sw have "s = p @ drop (length p) s" by simp
  with mem len show ?thesis by auto
qed

lemma strip_prefixes_drop: "\<exists>k. strip_prefixes ps s = drop k s"
proof (induction ps s rule: strip_prefixes.induct)
  case (1 ps)
  then show ?case by simp
next
  case (2 ps c cs)
  show ?case
  proof (cases "prefix_len ps (c # cs) = 0")
    case True
    then have "strip_prefixes ps (c # cs) = drop 0 (c # cs)" by simp
    then show ?thesis by blast
  next
    case False
    then obtain m where m: "prefix_len ps (c # cs) = Suc m"
      by (cases "prefix_len ps (c # cs)") auto
    from 2 False obtain k where
      "strip_prefixes ps (drop (prefix_len ps (c # cs) - 1) cs) = drop k (drop (prefix_len ps (c # cs) - 1) cs)"
      by blast
    then have "strip_prefixes ps (drop m cs) = drop k (drop m cs)" by (simp add: m)
    then have "strip_prefixes ps (c # cs) = drop (Suc (k + m)) (c # cs)"
      using m by simp
    then show ?thesis by blast
  qed
qed

lemma strip_prefixes_step:
  assumes "prefix_len ps s \<noteq> 0"
  shows "strip_prefixes ps s = strip_prefixes ps (drop (prefix_len ps s) s)"
proof (cases s)
  case Nil
  then show ?thesis by simp
next
  case (Cons c cs)
  from assms obtain n where n: "prefix_len ps s = Suc n" by (cases "prefix_len ps s") auto
  with Cons show ?thesis by simp
qed

lemma white_space_no_fence: "p \<in> set white_space \<Longrightarrow> CHR 0x60 \<notin> set p"
  by (auto simp: white_space_def)

lemma lazy_append_prefix:
  "CHR 0x60 \<notin> set p \<Longrightarrow> lazy_until_fence (p @ s) = map_option ((@) p) (lazy_until_fence s)"
proof (induction p)
  case Nil
  then show ?case by (cases "lazy_until_fence s") auto
next
  case (Cons a p)
  then have "\<not> startsWith fence (a # p @ s)" by (auto simp: startsWith_def fence_def)
  with Cons show ?case by (cases "lazy_until_fence s") auto
qed

lemma lazy_tl: "lazy_until_fence (c # s) = None \<Longrightarrow> lazy_until_fence s = None"
  by (simp split: if_splits)

lemma lazy_drop: "lazy_until_fence s = None \<Longrightarrow> lazy_until_fence (drop n s) = None"
proof (induction n arbitrary: s)
  case 0
  then show ?case by simp
next
  case (Suc n)
  show ?case
  proof (cases s)
    case Nil
    then show ?thesis by simp
  next
    case (Cons c t)
    with Suc.prems have "lazy_until_fence t = None" by (simp add: lazy_tl)
    with Suc.IH Cons show ?thesis by simp
  qed
qed

lemma lazy_trimStart: "lazy_until_fence s = None \<Longrightarrow> lazy_until_fence (trimStart s) = None"
  using strip_prefixes_drop [of white_space s] lazy_drop [of s] by (auto simp: trimStart_def)

lemma trimStart_step:
  assumes "space_len s \<noteq> 0"
  shows "trimStart s = trimStart (drop (space_len s) s)"
  using strip_prefixes_step [of white_space s] assms by (simp add: trimStart_def space_len_def)

lemma trimStart_stop: "space_len s = 0 \<Longrightarrow> trimStart s = s"
  by (cases s) (simp_all add: trimStart_def space_len_def)

lemma lazy_space_prefix:
  assumes "space_len s \<noteq> 0" and "lazy_until_fence (drop (space_len s) s) = None"
  shows "lazy_until_fence s = None"
proof -
  from assms(1) obtain p where p: "p \<in> set white_space" and s: "s = p @ drop (space_len s) s"
    using prefix_len_split [of white_space s] by (auto simp: space_len_def)
  from p have "CHR 0x60 \<notin> set p" by (rule white_space_no_fence)
  then have "lazy_until_fence (p @ drop (space_len s) s) = None"
    using assms(2) by (simp add: lazy_append_prefix)
  with s show ?thesis by simp
qed

lemma lazy_trimStart_None: "lazy_until_fence (trimStart t) = None \<Longrightarrow> lazy_until_fence t = None"
proof (induction "length t" arbitrary: t rule: less_induct)
  case less
  show ?case
  proof (cases "space_len t = 0")
    case True
    with less.prems show ?thesis by (simp add: trimStart_stop)
  next
    case False
    then have "t \<noteq> []" by (auto simp: space_len_def prefix_len_def white_space_def startsWith_def)
    with False have shorter: "length (drop (space_len t) t) < length t" by simp
    from less.prems False have "lazy_until_fence (trimStart (drop (space_len t) t)) = None"
      by (simp add: trimStart_step [symmetric])
    with shorter have "lazy_until_fence (drop (space_len t) t) = None" by (rule less.hyps)
    with False show ?thesis by (rule lazy_space_prefix)
  qed
qed

lemma spaces_then_lazy: "spaces_then lazy_until_fence s = lazy_until_fence (trimStart s)"
proof (induction "length s" arbitrary: s rule: less_induct)
  case less
  show ?case
  proof (cases s)
    case Nil
    then show ?thesis by (simp add: trimStart_def)
  next
    case (Cons c cs)
    show ?thesis
    proof (cases "space_len s = 0")
      case True
      with Cons show ?thesis by (simp add: trimStart_stop)
    next
      case False
      let ?r = "drop (space_len s - 1) cs"
      have r: "?r = drop (space_len s) s" using False Cons by (cases "space_len s") auto
      have "length ?r < length s" using Cons by simp
      then have ih: "spaces_then lazy_until_fence ?r = lazy_until_fence (trimStart ?r)"
        by (rule less.hyps)
      have ts: "trimStart s = trimStart ?r" using False r by (simp add: trimStart_step)
      show ?thesis
      proof (cases "lazy_until_fence (trimStart ?r)")
        case None
        then have "lazy_until_fence (trimStart s) = None" using ts by simp
        then have "lazy_until_fence s = None" by (rule lazy_trimStart_None)
        with None ih ts False Cons show ?thesis by simp
      next
        case (Some a)
        with ih ts False Cons show ?thesis by simp
      qed
    qed
  qed
qed

lemma lazy_json: 
  assumes "startsWith ''json'' r" and "lazy_until_fence (drop 4 r) = None"
  shows "lazy_until_fence r = None"
proof -
  from assms(1) obtain t where r: "r = ''json'' @ t"
    by (metis append_take_drop_id startsWith_def)
  with assms(2) have "lazy_until_fence t = None" by simp
  then show ?thesis unfolding r by (simp add: startsWith_def fence_def)
qed

lemma optional_json:
  "optional_then ''json'' (spaces_then lazy_until_fence) r =
     lazy_until_fence (trimStart (if startsWith ''json'' r then drop 4 r else r))"
proof (cases "startsWith ''json'' r")
  case False
  then show ?thesis by (simp add: optional_then_def spaces_then_lazy)
next
  case True
  show ?thesis
  proof (cases "lazy_until_fence (trimStart (drop 4 r))")
    case None
    then have "lazy_until_fence (drop 4 r) = None" by (rule lazy_trimStart_None)
    with True have "lazy_until_fence r = None" by (rule lazy_json)
    then have "lazy_until_fence (trimStart r) = None" by (rule lazy_trimStart)
    with None True show ?thesis by (simp add: optional_then_def spaces_then_lazy eval_nat_numeral)
  next
    case (Some a)
    with True show ?thesis by (simp add: optional_then_def spaces_then_lazy eval_nat_numeral)
  qed
qed

lemma codeBlock_here_eq:
  "codeBlock_here s =
     (if startsWith fence s
      then lazy_until_fence (trimStart
             (if startsWith ''json'' (drop 3 s) then drop 4 (drop 3 s) else drop 3 s))
      else None)"
  by (simp add: codeBlock_here_def optional_json fence_def eval_nat_numeral)

lemma codeBlock_here_closing:
  assumes "lazy_until_fence (drop 3 s) = None"
  shows "codeBlock_here s = None"
proof -
  have "lazy_until_fence (drop 4 (drop 3 s)) = None"
    using assms by (rule lazy_drop)
  then have "lazy_until_fence (trimStart (drop 4 (drop 3 s))) = None"
    by (rule lazy_trimStart)
  moreover have "lazy_until_fence (trimStart (drop 3 s)) = None"
    using assms by (rule lazy_trimStart)
  ultimately show ?thesis by (simp add: codeBlock_here_eq)
qed

lemma codeBlockMatch_None:
  "lazy_until_fence (drop 3 s) = None \<Longrightarrow> codeBlockMatch s = None"
proof (induction s)
  case Nil
  then show ?case by simp
next
  case (Cons c s)
  have here: "codeBlock_here (c # s) = None"
    using Cons.prems by (rule codeBlock_here_closing)
  have "lazy_until_fence (drop 1 (drop 3 (c # s))) = None"
    using Cons.prems by (rule lazy_drop)
  then have "lazy_until_fence (drop 3 s) = None"
    by (simp add: eval_nat_numeral)
  with Cons.IH here show ?case by simp
qed

text \<open>The position of a fence, against the scan of the matcher.\<close>

lemma find_map_index: "find P (map f xs) = map_option f (find (\<lambda>x. P (f x)) xs)"
  by (induction xs) auto

lemma find_upt_Suc:
  "find P [0..<Suc n] = (if P 0 then Some 0 else map_option Suc (find (\<lambda>i. P (Suc i)) [0..<n]))"
proof -
  have "[0..<Suc n] = 0 # map Suc [0..<n]"
    by (simp add: upt_conv_Cons map_Suc_upt del: upt_Suc)
  then show ?thesis by (simp add: find_map_index del: upt_Suc)
qed

lemma fence_at_0: "fence_at s 0 = startsWith fence s"
proof (cases s)
  case Nil
  then show ?thesis by (simp add: fence_at_def startsWith_def fence_def)
next
  case s: (Cons a s1)
  show ?thesis
  proof (cases s1)
    case Nil
    with s show ?thesis by (simp add: fence_at_def startsWith_def fence_def)
  next
    case s1: (Cons b s2)
    show ?thesis
    proof (cases s2)
      case Nil
      with s s1 show ?thesis by (simp add: fence_at_def startsWith_def fence_def)
    next
      case (Cons c s3)
      with s s1 show ?thesis
        by (auto simp: fence_at_def startsWith_def fence_def eval_nat_numeral)
    qed
  qed
qed

lemma fence_at_Suc: "fence_at (c # cs) (Suc i) = fence_at cs i"
  by (auto simp: fence_at_def)

lemma fence_index_Nil: "fence_index [] = None"
  by (simp add: fence_index_def)

lemma fence_index_Cons:
  "fence_index (c # cs) =
     (if startsWith fence (c # cs) then Some 0 else map_option Suc (fence_index cs))"
proof -
  have "fence_index (c # cs) = find (fence_at (c # cs)) [0..<Suc (length cs)]"
    by (simp add: fence_index_def del: upt_Suc)
  also have "\<dots> = (if fence_at (c # cs) 0 then Some 0
                   else map_option Suc (find (\<lambda>i. fence_at (c # cs) (Suc i)) [0..<length cs]))"
    by (rule find_upt_Suc)
  finally show ?thesis
    by (simp add: fence_at_0 fence_at_Suc fence_index_def del: upt_Suc)
qed

lemma lazy_fence_index:
  "lazy_until_fence s = (case fence_index s of None \<Rightarrow> None | Some j \<Rightarrow> Some (take j s))"
proof (induction s)
  case Nil
  then show ?case by (simp add: fence_index_Nil)
next
  case (Cons c cs)
  then show ?case by (simp add: fence_index_Cons split: option.split)
qed

lemma fenced_interior_here:
  assumes "startsWith fence (c # cs)"
  shows "fenced_interior (c # cs) =
           lazy_until_fence (trimStart (if startsWith ''json'' (drop 3 (c # cs))
                                        then drop 4 (drop 3 (c # cs)) else drop 3 (c # cs)))"
proof -
  from assms have i: "fence_index (c # cs) = Some 0" by (simp add: fence_index_Cons)
  have d: "drop (0 + 3) (c # cs) = drop 3 (c # cs)" by simp
  show ?thesis
    unfolding fenced_interior_def i option.case d Let_def lazy_fence_index by (rule refl)
qed

lemma fenced_interior_later:
  assumes "\<not> startsWith fence (c # cs)"
  shows "fenced_interior (c # cs) = fenced_interior cs"
proof (cases "fence_index cs")
  case None
  with assms have "fence_index (c # cs) = None" by (simp add: fence_index_Cons)
  with None show ?thesis by (simp add: fenced_interior_def)
next
  case (Some i)
  with assms have i: "fence_index (c # cs) = Some (Suc i)" by (simp add: fence_index_Cons)
  have "Suc i + 3 = Suc (i + 3)" by simp
  then have d: "drop (Suc i + 3) (c # cs) = drop (i + 3) cs" by (simp only: drop_Suc_Cons)
  show ?thesis unfolding fenced_interior_def i Some option.case d by (rule refl)
qed

lemma codeBlockMatch_interior: "codeBlockMatch t = fenced_interior t"
proof (induction t)
  case Nil
  then show ?case by (simp add: fenced_interior_def fence_index_Nil)
next
  case (Cons c cs)
  show ?case
  proof (cases "startsWith fence (c # cs)")
    case False
    then have "codeBlock_here (c # cs) = None" by (simp add: codeBlock_here_eq)
    with False Cons show ?thesis by (simp add: fenced_interior_later)
  next
    case True
    let ?r = "drop 3 (c # cs)"
    let ?i = "trimStart (if startsWith ''json'' ?r then drop 4 ?r else ?r)"
    have fi: "fenced_interior (c # cs) = lazy_until_fence ?i"
      using True by (rule fenced_interior_here)
    have here: "codeBlock_here (c # cs) = lazy_until_fence ?i"
      using True by (simp add: codeBlock_here_eq)
    show ?thesis
    proof (cases "lazy_until_fence ?i")
      case (Some a)
      with fi here show ?thesis by simp
    next
      case None
      then have "lazy_until_fence (if startsWith ''json'' ?r then drop 4 ?r else ?r) = None"
        by (rule lazy_trimStart_None)
      then have "lazy_until_fence ?r = None"
        by (auto split: if_splits intro: lazy_json)
      then have "lazy_until_fence (drop 1 ?r) = None" by (rule lazy_drop)
      then have "lazy_until_fence (drop 3 cs) = None" by (simp add: eval_nat_numeral)
      then have "codeBlockMatch cs = None" by (rule codeBlockMatch_None)
      with None fi here show ?thesis by simp
    qed
  qed
qed

lemma indexOf_takeWhile:
  "indexOf s c = (if c \<in> set s then int (length (takeWhile (\<lambda>x. x \<noteq> c) s)) else - 1)"
  by (induction s) (auto simp: Let_def)

lemma lastIndexOf_takeWhile:
  "lastIndexOf s c =
     (if c \<in> set s then int (length s) - 1 - int (length (takeWhile (\<lambda>x. x \<noteq> c) (rev s))) else - 1)"
  by (simp add: lastIndexOf_def indexOf_takeWhile Let_def)

lemma slice_nonneg:
  "0 \<le> a \<Longrightarrow> 0 \<le> b \<Longrightarrow> nat a \<le> length s \<Longrightarrow> nat b \<le> length s \<Longrightarrow>
     slice s a b = take (nat b - nat a) (drop (nat a) s)"
  by (simp add: slice_def slice_index_def Let_def min_def)

lemma takeWhile_less: "c \<in> set xs \<Longrightarrow> length (takeWhile (\<lambda>x. x \<noteq> c) xs) < length xs"
  by (metis (lifting) leI set_takeWhileD takeWhile_eq_take take_all_iff)

lemma brace_span_eq:
  "brace_span t =
     (let firstBrace = indexOf t (CHR ''{''); lastBrace = lastIndexOf t (CHR ''}'')
      in if firstBrace \<noteq> - 1 \<and> lastBrace > firstBrace
         then Some (slice t firstBrace (lastBrace + 1)) else None)"
proof (cases "CHR ''{'' \<in> set t")
  case False
  then have e: "dropWhile (\<lambda>c. c \<noteq> CHR ''{'') t = []" by auto
  show ?thesis using False by (simp add: brace_span_def e indexOf_takeWhile Let_def)
next
  case True
  define a where "a = length (takeWhile (\<lambda>c. c \<noteq> CHR ''{'') t)"
  define s where "s = dropWhile (\<lambda>c. c \<noteq> CHR ''{'') t"
  have s_drop: "s = drop a t" by (simp add: s_def a_def dropWhile_eq_drop)
  have t_split: "t = take a t @ s" by (simp add: s_drop)
  have a_lt: "a < length t" using True unfolding a_def by (rule takeWhile_less)
  have s_ne: "s \<noteq> []" using True unfolding s_def by auto
  have "hd s = CHR ''{''" using s_ne hd_dropWhile [of "\<lambda>c. c \<noteq> CHR ''{''" t] unfolding s_def by simp
  with s_ne have s_hd: "\<exists>r. s = CHR ''{'' # r" by (cases s) auto
  have first: "indexOf t (CHR ''{'') = int a" using True by (simp add: indexOf_takeWhile a_def)
  have rev_t: "rev t = rev s @ rev (take a t)"
    by (metis rev_append t_split)
  let ?P = "\<lambda>c. c \<noteq> CHR ''}''"
  show ?thesis
  proof (cases "CHR ''}'' \<in> set s")
    case False
    then have e: "rev (dropWhile ?P (rev s)) = []" by auto
    have "\<not> lastIndexOf t (CHR ''}'') > int a"
    proof (cases "CHR ''}'' \<in> set t")
      case False
      then show ?thesis by (simp add: lastIndexOf_takeWhile)
    next
      case True
      have "takeWhile ?P (rev t) = rev s @ takeWhile ?P (rev (take a t))"
        unfolding rev_t by (rule takeWhile_append2) (use False in auto)
      then have "length (takeWhile ?P (rev t)) \<ge> length s" by simp
      moreover have "length s = length t - a" by (simp add: s_drop)
      ultimately show ?thesis using True a_lt by (simp add: lastIndexOf_takeWhile)
    qed
    then show ?thesis using first False by (simp add: brace_span_def Let_def s_def [symmetric])
  next
    case inS: True
    from s_hd obtain r where r: "s = CHR ''{'' # r" by blast
    define b where "b = length (takeWhile ?P (rev s))"
    have inR: "CHR ''}'' \<in> set r" using inS r by auto
    have tw: "takeWhile ?P (rev t) = takeWhile ?P (rev s)"
      unfolding rev_t by (rule takeWhile_append1 [of "CHR ''}''"]) (use inS in auto)
    have "takeWhile ?P (rev s) = takeWhile ?P (rev r)"
      unfolding r rev.simps by (rule takeWhile_append1 [of "CHR ''}''"]) (use inR in auto)
    moreover have "length (takeWhile ?P (rev r)) < length (rev r)"
      by (rule takeWhile_less) (use inR in simp)
    ultimately have b_lt: "b < length r" by (simp add: b_def)
    have len_s: "length s = length t - a" by (simp add: s_drop)
    have len_r: "length s = Suc (length r)" by (simp add: r)
    have inT: "CHR ''}'' \<in> set t" using inS t_split by (metis Un_iff set_append)
    have last: "lastIndexOf t (CHR ''}'') = int (length t) - 1 - int b"
      using inT tw by (simp add: lastIndexOf_takeWhile b_def)
    have span: "rev (dropWhile ?P (rev s)) = take (length s - b) s"
      by (simp add: b_def dropWhile_eq_drop drop_rev)
    have to_nat: "int (length t) - 1 - int b + 1 = int (length t - b)"
      using b_lt len_r len_s by linarith
    have idx_a: "slice_index t (int a) = a" using a_lt by (simp add: slice_index_def)
    have idx_b: "slice_index t (int (length t - b)) = length t - b" by (simp add: slice_index_def)
    have "length t - b - a = length s - b" using len_s by linarith
    then have "slice t (int a) (int (length t - b)) = take (length s - b) s"
      unfolding slice_def Let_def idx_a idx_b s_drop by simp
    then have sl: "slice t (int a) (int (length t) - 1 - int b + 1) = take (length s - b) s"
      unfolding to_nat .
    have ne: "take (length s - b) s \<noteq> []" using b_lt by (auto simp: r)
    have gt: "int (length t) - 1 - int b > int a" using b_lt len_r len_s a_lt by linarith
    show ?thesis
      using first last span sl ne gt inS by (simp add: brace_span_def Let_def s_def [symmetric])
  qed
qed

lemma extractJSON_first_success:
  "extractJSON parse t =
     (case first_success [strategy_whole parse t, strategy_fenced parse t, strategy_braces parse t] of
        Some v \<Rightarrow> v
      | None \<Rightarrow> JNull)"
proof (cases "parse (trim t)")
  case (Some v)
  then show ?thesis by (simp add: extractJSON_def strategy_whole_def)
next
  case whole: None
  show ?thesis
  proof (cases "strategy_fenced parse t")
    case (Some v)
    then show ?thesis
      using whole
      by (simp add: extractJSON_def strategy_whole_def strategy_fenced_def codeBlockMatch_interior)
  next
    case None
    have br: "strategy_braces parse t =
            (let firstBrace = indexOf t (CHR ''{''); lastBrace = lastIndexOf t (CHR ''}'')
             in if firstBrace \<noteq> - 1 \<and> lastBrace > firstBrace
                then parse (slice t firstBrace (lastBrace + 1)) else None)"
      by (simp add: strategy_braces_def brace_span_eq Let_def)
    have fn: "(case codeBlockMatch t of Some inner \<Rightarrow> parse (trim inner) | None \<Rightarrow> None) = None"
      using None by (simp add: strategy_fenced_def codeBlockMatch_interior)
    show ?thesis
      unfolding extractJSON_def whole fn br None strategy_whole_def
      by (simp add: Let_def split: option.split)
  qed
qed

text \<open>
  C6. For every text and every parser, \<open>extractJSON\<close> returns the value of the first of
  the three strategies that parses, in the order whole trimmed text, interior of the
  first fenced block, text from the first opening brace to the last closing brace, and
  \<open>null\<close> (no exception) when none does. With the model of \<open>JSON.parse\<close>: prose around
  an object gives the object, a fenced block tagged \<open>json\<close> gives its object, and a text
  that holds no JSON gives \<open>null\<close>. The fenced block is found where the other two
  strategies fail: with braces in the prose after it, and around an array; its tag is
  optional and the white space around its interior may be any, here U+00A0 and U+2028;
  a block that is not closed is none. A text that parses as a whole is not searched for
  a block, and a block that parses comes before the braces. The white space trimmed
  from the whole text may be any as well, here U+FEFF and U+00A0.
\<close>

theorem extractJSON_three_strategies:
  \<open>extractJSON parse t =
     (case first_success [strategy_whole parse t, strategy_fenced parse t, strategy_braces parse t] of
        Some v \<Rightarrow> v
      | None \<Rightarrow> JNull)
   \<and> extractJSON JSON_parse ''some prose {"question":"Q?","options":[]} trailing'' =
       JObj [(''question'', JStr ''Q?''), (''options'', JArr [])]
   \<and> extractJSON JSON_parse
         (''```json'' @ [CHR 0x0A] @ ''{"a":1}'' @ [CHR 0x0A] @ ''```'') =
       JObj [(''a'', JNum 1 0)]
   \<and> extractJSON JSON_parse ''not json at all'' = JNull
   \<and> strategy_whole JSON_parse
         (''Sure: ```json'' @ [CHR 0x0A] @ ''{"a":1}'' @ [CHR 0x0A] @ ''``` tell me if {this} works'') = None
   \<and> strategy_braces JSON_parse
         (''Sure: ```json'' @ [CHR 0x0A] @ ''{"a":1}'' @ [CHR 0x0A] @ ''``` tell me if {this} works'') = None
   \<and> extractJSON JSON_parse
         (''Sure: ```json'' @ [CHR 0x0A] @ ''{"a":1}'' @ [CHR 0x0A] @ ''``` tell me if {this} works'') =
       JObj [(''a'', JNum 1 0)]
   \<and> strategy_braces JSON_parse
         (''Here you go: ```json'' @ [CHR 0x0A] @ ''[1,2]'' @ [CHR 0x0A] @ ''``` done'') = None
   \<and> extractJSON JSON_parse
         (''Here you go: ```json'' @ [CHR 0x0A] @ ''[1,2]'' @ [CHR 0x0A] @ ''``` done'') =
       JArr [JNum 1 0, JNum 2 0]
   \<and> strategy_braces JSON_parse
         (''```'' @ NBSP @ ''{"a":1}'' @ LINE_SEPARATOR @ ''``` and {"b":2}'') = None
   \<and> extractJSON JSON_parse
         (''```'' @ NBSP @ ''{"a":1}'' @ LINE_SEPARATOR @ ''``` and {"b":2}'') =
       JObj [(''a'', JNum 1 0)]
   \<and> extractJSON JSON_parse ''```json [1,2]'' = JNull
   \<and> strategy_fenced JSON_parse ''"```json 1 ```"'' = Some (JNum 1 0)
   \<and> extractJSON JSON_parse ''"```json 1 ```"'' = JStr ''```json 1 ```''
   \<and> strategy_braces JSON_parse ''```json 1 ``` {"b":2}'' = Some (JObj [(''b'', JNum 2 0)])
   \<and> extractJSON JSON_parse ''```json 1 ``` {"b":2}'' = JNum 1 0
   \<and> JSON_parse (BOM @ ''[1]'' @ NBSP) = None
   \<and> extractJSON JSON_parse (BOM @ ''[1]'' @ NBSP) = JArr [JNum 1 0]\<close>
proof -
  have prose: \<open>extractJSON JSON_parse ''some prose {"question":"Q?","options":[]} trailing'' =
       JObj [(''question'', JStr ''Q?''), (''options'', JArr [])]\<close>
    by code_simp
  have fenced: \<open>extractJSON JSON_parse
         (''```json'' @ [CHR 0x0A] @ ''{"a":1}'' @ [CHR 0x0A] @ ''```'') =
       JObj [(''a'', JNum 1 0)]\<close>
    by code_simp
  have no_json: \<open>extractJSON JSON_parse ''not json at all'' = JNull\<close>
    by code_simp
  have only_fenced_1: \<open>strategy_whole JSON_parse
         (''Sure: ```json'' @ [CHR 0x0A] @ ''{"a":1}'' @ [CHR 0x0A] @ ''``` tell me if {this} works'') = None\<close>
    by code_simp
  have only_fenced_2: \<open>strategy_braces JSON_parse
         (''Sure: ```json'' @ [CHR 0x0A] @ ''{"a":1}'' @ [CHR 0x0A] @ ''``` tell me if {this} works'') = None\<close>
    by code_simp
  have only_fenced_3: \<open>extractJSON JSON_parse
         (''Sure: ```json'' @ [CHR 0x0A] @ ''{"a":1}'' @ [CHR 0x0A] @ ''``` tell me if {this} works'') =
       JObj [(''a'', JNum 1 0)]\<close>
    by code_simp
  have array_1: \<open>strategy_braces JSON_parse
         (''Here you go: ```json'' @ [CHR 0x0A] @ ''[1,2]'' @ [CHR 0x0A] @ ''``` done'') = None\<close>
    by code_simp
  have array_2: \<open>extractJSON JSON_parse
         (''Here you go: ```json'' @ [CHR 0x0A] @ ''[1,2]'' @ [CHR 0x0A] @ ''``` done'') =
       JArr [JNum 1 0, JNum 2 0]\<close>
    by code_simp
  have spaces_1: \<open>strategy_braces JSON_parse
         (''```'' @ NBSP @ ''{"a":1}'' @ LINE_SEPARATOR @ ''``` and {"b":2}'') = None\<close>
    by code_simp
  have spaces_2: \<open>extractJSON JSON_parse
         (''```'' @ NBSP @ ''{"a":1}'' @ LINE_SEPARATOR @ ''``` and {"b":2}'') =
       JObj [(''a'', JNum 1 0)]\<close>
    by code_simp
  have unclosed: \<open>extractJSON JSON_parse ''```json [1,2]'' = JNull\<close>
    by code_simp
  have whole_first_1: \<open>strategy_fenced JSON_parse ''"```json 1 ```"'' = Some (JNum 1 0)\<close>
    by code_simp
  have whole_first_2: \<open>extractJSON JSON_parse ''"```json 1 ```"'' = JStr ''```json 1 ```''\<close>
    by code_simp
  have fenced_first_1: \<open>strategy_braces JSON_parse ''```json 1 ``` {"b":2}'' = Some (JObj [(''b'', JNum 2 0)])\<close>
    by code_simp
  have fenced_first_2: \<open>extractJSON JSON_parse ''```json 1 ``` {"b":2}'' = JNum 1 0\<close>
    by code_simp
  have padded_1: \<open>JSON_parse (BOM @ ''[1]'' @ NBSP) = None\<close>
    by code_simp
  have padded_2: \<open>extractJSON JSON_parse (BOM @ ''[1]'' @ NBSP) = JArr [JNum 1 0]\<close>
    by code_simp
  have general: "extractJSON parse t =
     (case first_success [strategy_whole parse t, strategy_fenced parse t, strategy_braces parse t] of
        Some v \<Rightarrow> v
      | None \<Rightarrow> JNull)"
    by (rule extractJSON_first_success)
  show ?thesis
    apply (intro conjI)
    apply (rule general)
    apply (rule prose)
    apply (rule fenced)
    apply (rule no_json)
    apply (rule only_fenced_1)
    apply (rule only_fenced_2)
    apply (rule only_fenced_3)
    apply (rule array_1)
    apply (rule array_2)
    apply (rule spaces_1)
    apply (rule spaces_2)
    apply (rule unclosed)
    apply (rule whole_first_1)
    apply (rule whole_first_2)
    apply (rule fenced_first_1)
    apply (rule fenced_first_2)
    apply (rule padded_1)
    apply (rule padded_2)
    done
qed



section \<open>The completion webhook: signature, forward-only status, deliverables, legacy path\<close>


lemmas webhook_defs =
  completion_body_def invalid_format_def getprop_def complete_direct_def complete_session_def task_by_id_def
  agent_by_id_def assigned_agent_name_def name_or_null_def targetStatus_def allowedStatuses_def
  statusOrder_def deliverables_of_def deliverable_row_def update_task_status_def text_or_def
  text_or_null_def insert_activity_def insert_event_def insert_deliverable_def
  update_agent_status_def active_tasks_def internal_error_def invalid_payload_def error_body_def

lemmas example_defs =
  store0_def task0_def agent0_def session0_def sys0_def rt0_def env_open_def env_secret_def

text \<open>
  The statements about the completion handler are about \<open>completion_body\<close>, which is
  the handler once the signature is accepted and the body parsed.
\<close>

lemma completion_POST_accepted:
  "\<not> signature_rejected rt ev signature rawBody \<Longrightarrow> parseJSON rt rawBody = Some body \<Longrightarrow>
     completion_POST rt ev sy signature rawBody st = completion_body sy body st"
  by (simp add: completion_POST_def)

lemma classify_Text_nonempty: "classify v = Text s \<Longrightarrow> v = Some (JStr s) \<and> s \<noteq> []"
  by (cases v rule: classify.cases) (auto split: if_splits)

lemma classify_Text_not_null: "classify (getprop body k) = Text s \<Longrightarrow> body \<noteq> JNull"
  by (auto simp: getprop_def)

text \<open>
  C2. With a non-empty secret configured, a request whose signature header is absent, or
  is not the hex HMAC-SHA-256 of the raw body under the secret, gets 401 and the store
  is unchanged, whatever the parser would make of the body (the parser is a parameter
  of the statement). With no secret configured (unset or empty) the header plays no
  role: the reply and the store are those of parsing the body and handling it.
\<close>

theorem webhook_signature_gate:
  "(WEBHOOK_SECRET ev = Some secret \<and> secret \<noteq> []
      \<and> (signature = None \<or> signature \<noteq> Some (hmac_sha256_hex rt secret rawBody))
     \<longrightarrow> completion_POST rt ev sy signature rawBody st = (Reply 401 (error_body ''Unauthorized''), st))
   \<and> (WEBHOOK_SECRET ev = None \<or> WEBHOOK_SECRET ev = Some []
     \<longrightarrow> completion_POST rt ev sy signature rawBody st =
           (case parseJSON rt rawBody of
              None \<Rightarrow> (internal_error, st)
            | Some body \<Rightarrow> completion_body sy body st))"
  by (auto simp: completion_POST_def signature_rejected_def verifyWebhookSignature_def
      split: option.splits)

theorem webhook_signature_gate_witness:
  \<open>WEBHOOK_SECRET env_secret = Some ''s3cret'' \<and> ''s3cret'' \<noteq> []
   \<and> Some ''0000'' \<noteq> Some (hmac_sha256_hex rt0 ''s3cret'' ''{"task_id":"t0","status":"done"}'')
   \<and> completion_POST rt0 env_secret sys0 (Some ''0000'') ''{"task_id":"t0","status":"done"}'' store0
       = (Reply 401 (error_body ''Unauthorized''), store0)
   \<and> completion_POST rt0 env_secret sys0 None ''{"task_id":"t0","status":"done"}'' store0
       = (Reply 401 (error_body ''Unauthorized''), store0)
   \<and> WEBHOOK_SECRET env_open = None
   \<and> completion_POST rt0 env_open sys0 None ''{"task_id":"t0","status":"done"}'' store0
       = completion_body sys0 (JObj [(''task_id'', JStr ''t0''), (''status'', JStr ''done'')]) store0
   \<and> map t_status (tasks (snd (completion_POST rt0 env_open sys0 None ''{"task_id":"t0","status":"done"}'' store0)))
       = [''done'', ''in_progress'', ''done'', ''review'']\<close>
proof -
  let ?raw = \<open>''{"task_id":"t0","status":"done"}''\<close>
  have s: "WEBHOOK_SECRET env_secret = Some ''s3cret''" and o: "WEBHOOK_SECRET env_open = None"
    by (simp_all add: env_secret_def env_open_def)
  have ne: "''s3cret'' \<noteq> []" by simp
  have bad: "Some ''0000'' \<noteq> Some (hmac_sha256_hex rt0 ''s3cret'' ?raw)"
    by (simp add: rt0_def)
  have p: "parseJSON rt0 ?raw = Some (JObj [(''task_id'', JStr ''t0''), (''status'', JStr ''done'')])"
    unfolding rt0_def by code_simp
  have r1: "completion_POST rt0 env_secret sys0 (Some ''0000'') ?raw store0
       = (Reply 401 (error_body ''Unauthorized''), store0)"
    using webhook_signature_gate [of env_secret "''s3cret''" "Some ''0000''" rt0 ?raw sys0 store0] s ne bad
    by blast
  have r2: "completion_POST rt0 env_secret sys0 None ?raw store0
       = (Reply 401 (error_body ''Unauthorized''), store0)"
    using webhook_signature_gate [of env_secret "''s3cret''" None rt0 ?raw sys0 store0] s ne
    by blast
  have r3: "completion_POST rt0 env_open sys0 None ?raw store0
       = completion_body sys0 (JObj [(''task_id'', JStr ''t0''), (''status'', JStr ''done'')]) store0"
    using webhook_signature_gate [of env_open "''''" None rt0 ?raw sys0 store0] o p
    by simp
  have r4: "map t_status (tasks (snd (completion_body sys0 (JObj [(''task_id'', JStr ''t0''), (''status'', JStr ''done'')]) store0)))
       = [''done'', ''in_progress'', ''done'', ''review'']"
    by (simp add: webhook_defs example_defs Let_def)
  from s ne bad r1 r2 o r3 r4 show ?thesis by simp
qed


lemma register_deliverables_frame:
  "register_deliverables sy tid i ds st = (r, st') \<Longrightarrow>
     tasks st' = tasks st \<and> agents st' = agents st
     \<and> openclaw_sessions st' = openclaw_sessions st \<and> events st' = events st
     \<and> task_activities st' = task_activities st"
proof (induction ds arbitrary: i st)
  case Nil
  then show ?case by simp
next
  case (Cons d ds)
  show ?case
  proof (cases "d = JNull \<or> deliverable_row sy tid i d = None")
    case True
    with Cons.prems show ?thesis by (auto split: if_splits)
  next
    case False
    then obtain row where row: "deliverable_row sy tid i d = Some row" and d: "d \<noteq> JNull"
      by auto
    with Cons.prems
    have "register_deliverables sy tid (Suc i) ds (insert_deliverable row st) = (r, st')"
      by simp
    from Cons.IH [OF this] show ?thesis by (simp add: insert_deliverable_def)
  qed
qed

lemma direct_tasks:
  assumes "task_by_id st tid = Some task"
  shows "tasks (snd (complete_direct sy body tid st)) =
     (if indexOf statusOrder (targetStatus (getprop body ''status'')) > indexOf statusOrder (t_status task)
      then map (\<lambda>t. if t_id t = t_id task
                     then t\<lparr>t_status := targetStatus (getprop body ''status''), t_updated_at := now sy\<rparr>
                     else t) (tasks st)
      else tasks st)"
proof -
  define target where "target = targetStatus (getprop body ''status'')"
  define newStatus where
    "newStatus = (if indexOf statusOrder target > indexOf statusOrder (t_status task)
                  then target else t_status task)"
  define st1 where
    "st1 = (if newStatus \<noteq> t_status task
            then update_task_status newStatus (now sy) (t_id task) st else st)"
  have st1_tasks: "tasks st1 =
     (if indexOf statusOrder target > indexOf statusOrder (t_status task)
      then map (\<lambda>t. if t_id t = t_id task then t\<lparr>t_status := target, t_updated_at := now sy\<rparr> else t)
             (tasks st)
      else tasks st)"
    by (auto simp: st1_def newStatus_def update_task_status_def)
  have "tasks (snd (complete_direct sy body tid st)) = tasks st1"
    unfolding complete_direct_def Let_def assms option.case
    unfolding target_def [symmetric]
    unfolding newStatus_def [symmetric]
    unfolding st1_def [symmetric]
    apply (cases "deliverables_of (getprop body ''deliverables'')")
     apply simp
    subgoal for ds
      apply (cases "register_deliverables sy (t_id task) 0 ds st1")
      subgoal for r st2
        using register_deliverables_frame [of sy "t_id task" 0 ds st1 r st2]
        by (auto simp: insert_activity_def insert_event_def update_agent_status_def
            split: option.splits)
      done
    done
  with st1_tasks show ?thesis by (simp add: target_def)
qed

lemma direct_body:
  "classify (getprop body ''task_id'') = Text tid \<Longrightarrow>
     completion_body sy body st = complete_direct sy body tid st"
  by (auto simp: completion_body_def getprop_def)

lemma targetStatus_cases:
  "targetStatus v =
     (if v = Some (JStr ''testing'') then ''testing''
      else if v = Some (JStr ''review'') then ''review''
      else if v = Some (JStr ''done'') then ''done''
      else ''testing'')"
  by (auto simp: targetStatus_def allowedStatuses_def split: option.splits json.splits)

lemma indexOf_done: "\<not> indexOf statusOrder (targetStatus v) > indexOf statusOrder ''done''"
  by (simp add: targetStatus_cases statusOrder_def)

text \<open>
  C3. A direct payload (\<open>task_id\<close> a non-empty string) for an existing task: the target
  is the payload's status when that is \<open>testing\<close>, \<open>review\<close> or \<open>done\<close>, and \<open>testing\<close>
  otherwise; the rows of the task get the target (and the time of the request) exactly
  when the target stands later in the order than the current status, and the table of
  tasks is unchanged otherwise. A task that is \<open>done\<close> stays as it is under a payload
  with status \<open>done\<close>, and under one with status \<open>review\<close> after it.
\<close>

theorem direct_completion_forward_only:
  assumes "classify (getprop body ''task_id'') = Text tid"
    and "task_by_id st tid = Some task"
  shows "targetStatus (getprop body ''status'') =
           (if getprop body ''status'' = Some (JStr ''testing'') then ''testing''
            else if getprop body ''status'' = Some (JStr ''review'') then ''review''
            else if getprop body ''status'' = Some (JStr ''done'') then ''done''
            else ''testing'')
       \<and> tasks (snd (completion_body sy body st)) =
           (if indexOf statusOrder (targetStatus (getprop body ''status''))
                 > indexOf statusOrder (t_status task)
            then map (\<lambda>t. if t_id t = t_id task
                           then t\<lparr>t_status := targetStatus (getprop body ''status''),
                                  t_updated_at := now sy\<rparr>
                           else t) (tasks st)
            else tasks st)
       \<and> (indexOf statusOrder (targetStatus (getprop body ''status''))
                 > indexOf statusOrder (t_status task)
            \<longrightarrow> targetStatus (getprop body ''status'') \<noteq> t_status task)
       \<and> (t_status task = ''done'' \<longrightarrow>
            tasks (snd (completion_body sy
                     (JObj [(''task_id'', JStr tid), (''status'', JStr ''done'')]) st)) = tasks st
          \<and> tasks (snd (completion_body sy'
                     (JObj [(''task_id'', JStr tid), (''status'', JStr ''review'')])
                     (snd (completion_body sy
                        (JObj [(''task_id'', JStr tid), (''status'', JStr ''done'')]) st))))
              = tasks st)"
proof -
  have tid: "tid \<noteq> []" using assms(1) by (auto dest: classify_Text_nonempty)
  have body_eq: "completion_body sy body st = complete_direct sy body tid st"
    using assms(1) by (rule direct_body)
  have later: "indexOf statusOrder (targetStatus (getprop body ''status''))
                 > indexOf statusOrder (t_status task)
            \<longrightarrow> targetStatus (getprop body ''status'') \<noteq> t_status task"
    by auto
  have twice: "tasks (snd (completion_body sy
                     (JObj [(''task_id'', JStr tid), (''status'', JStr ''done'')]) st)) = tasks st
          \<and> tasks (snd (completion_body sy'
                     (JObj [(''task_id'', JStr tid), (''status'', JStr ''review'')])
                     (snd (completion_body sy
                        (JObj [(''task_id'', JStr tid), (''status'', JStr ''done'')]) st))))
              = tasks st"
    if is_done: "t_status task = ''done''"
  proof -
    let ?b1 = "JObj [(''task_id'', JStr tid), (''status'', JStr ''done'')]"
    let ?b2 = "JObj [(''task_id'', JStr tid), (''status'', JStr ''review'')]"
    let ?st1 = "snd (completion_body sy ?b1 st)"
    have c1: "classify (getprop ?b1 ''task_id'') = Text tid"
      and c2: "classify (getprop ?b2 ''task_id'') = Text tid"
      using tid by (simp_all add: getprop_def)
    have one: "tasks ?st1 = tasks st"
      using direct_tasks [OF assms(2), of sy ?b1] indexOf_done [of "getprop ?b1 ''status''"] is_done
      by (simp add: direct_body [OF c1])
    then have found: "task_by_id ?st1 tid = Some task"
      using assms(2) by (simp add: task_by_id_def)
    have "tasks (snd (completion_body sy' ?b2 ?st1)) = tasks ?st1"
      using direct_tasks [OF found, of sy' ?b2] indexOf_done [of "getprop ?b2 ''status''"] is_done
      by (simp add: direct_body [OF c2])
    with one show ?thesis by simp
  qed
  show ?thesis
    using targetStatus_cases [of "getprop body ''status''"] direct_tasks [OF assms(2), of sy body]
      later twice
    by (simp add: body_eq)
qed


theorem direct_completion_forward_only_witness:
  "classify (getprop (JObj [(''task_id'', JStr ''t0''), (''status'', JStr ''review'')]) ''task_id'')
     = Text ''t0''
   \<and> task_by_id store0 ''t0'' = Some task0
   \<and> map t_status (tasks (snd (completion_body sys0
           (JObj [(''task_id'', JStr ''t0''), (''status'', JStr ''review'')]) store0)))
       = [''review'', ''in_progress'', ''done'', ''review'']
   \<and> classify (getprop (JObj [(''task_id'', JStr ''t2''), (''status'', JStr ''banana'')]) ''task_id'')
     = Text ''t2''
   \<and> task_by_id store0 ''t2'' = Some (tasks store0 ! 2)
   \<and> t_status (tasks store0 ! 2) = ''done''
   \<and> tasks (snd (completion_body sys0
           (JObj [(''task_id'', JStr ''t2''), (''status'', JStr ''banana'')]) store0)) = tasks store0
   \<and> tasks (snd (completion_body sys0
           (JObj [(''task_id'', JStr ''t2''), (''status'', JStr ''done'')]) store0)) = tasks store0
   \<and> tasks (snd (completion_body sys0
           (JObj [(''task_id'', JStr ''t2''), (''status'', JStr ''review'')])
           (snd (completion_body sys0
              (JObj [(''task_id'', JStr ''t2''), (''status'', JStr ''done'')]) store0))))
       = tasks store0"
proof -
  let ?b0 = "JObj [(''task_id'', JStr ''t0''), (''status'', JStr ''review'')]"
  let ?b2 = "JObj [(''task_id'', JStr ''t2''), (''status'', JStr ''banana'')]"
  have c0: "classify (getprop ?b0 ''task_id'') = Text ''t0''"
    and c2: "classify (getprop ?b2 ''task_id'') = Text ''t2''"
    by (simp_all add: getprop_def)
  have f0: "task_by_id store0 ''t0'' = Some task0"
    and f2: "task_by_id store0 ''t2'' = Some (tasks store0 ! 2)"
    by (simp_all add: task_by_id_def store0_def task0_def)
  have d2: "t_status (tasks store0 ! 2) = ''done''"
    by (simp add: store0_def)
  have t0: "t_status task0 = ''assigned''" and i0: "t_id task0 = ''t0''"
    by (simp_all add: task0_def)
  have r0: "map t_status (tasks (snd (completion_body sys0 ?b0 store0)))
       = [''review'', ''in_progress'', ''done'', ''review'']"
    using direct_completion_forward_only [OF c0 f0, of sys0 sys0]
    by (simp add: t0 i0 statusOrder_def store0_def getprop_def)
  from direct_completion_forward_only [OF c2 f2, of sys0 sys0] d2
  have r2: "tasks (snd (completion_body sys0 ?b2 store0)) = tasks store0"
    and r3: "tasks (snd (completion_body sys0
           (JObj [(''task_id'', JStr ''t2''), (''status'', JStr ''done'')]) store0)) = tasks store0"
    and r4: "tasks (snd (completion_body sys0
           (JObj [(''task_id'', JStr ''t2''), (''status'', JStr ''review'')])
           (snd (completion_body sys0
              (JObj [(''task_id'', JStr ''t2''), (''status'', JStr ''done'')]) store0))))
       = tasks store0"
    by (simp_all add: statusOrder_def getprop_def)
  from c0 f0 r0 c2 f2 d2 r2 r3 r4 show ?thesis by blast
qed

lemma deliverable_row_type:
  "deliverable_row sy tid i d = Some row \<Longrightarrow> d_deliverable_type row = entry_type d"
  by (cases "getprop d ''type''" rule: classify.cases)
    (auto simp: deliverable_row_def entry_type_def text_or_def
      split: option.splits json.splits if_splits jsfield.splits)

lemma well_typed_entry_row:
  "well_typed_entry d \<Longrightarrow> d \<noteq> JNull \<and> deliverable_row sy tid i d \<noteq> None"
  by (auto simp: well_typed_entry_def deliverable_row_def text_or_def text_or_null_def
      split: option.splits json.splits jsfield.splits)

lemma register_deliverables_rows:
  "register_deliverables sy tid i ds st = (r, st') \<Longrightarrow>
     \<exists>rows. task_deliverables st' = task_deliverables st @ rows
       \<and> map d_deliverable_type rows = map entry_type (take (length rows) ds)
       \<and> (list_all well_typed_entry ds \<longrightarrow> length rows = length ds)"
proof (induction ds arbitrary: i st)
  case Nil
  then show ?case by simp
next
  case (Cons d ds)
  show ?case
  proof (cases "d = JNull \<or> deliverable_row sy tid i d = None")
    case True
    with Cons.prems have "st' = st" by (auto split: if_splits)
    moreover have "\<not> well_typed_entry d"
      using True well_typed_entry_row [of d sy tid i] by blast
    ultimately show ?thesis by simp
  next
    case False
    then obtain row where row: "deliverable_row sy tid i d = Some row" and d: "d \<noteq> JNull"
      by auto
    with Cons.prems
    have "register_deliverables sy tid (Suc i) ds (insert_deliverable row st) = (r, st')"
      by simp
    from Cons.IH [OF this] obtain rows where
      rows: "task_deliverables st' = task_deliverables (insert_deliverable row st) @ rows"
        "map d_deliverable_type rows = map entry_type (take (length rows) ds)"
        "list_all well_typed_entry ds \<longrightarrow> length rows = length ds"
      by blast
    have "task_deliverables st' = task_deliverables st @ (row # rows)"
      using rows(1) by (simp add: insert_deliverable_def)
    moreover have "map d_deliverable_type (row # rows)
                     = map entry_type (take (length (row # rows)) (d # ds))"
      using rows(2) deliverable_row_type [OF row] by simp
    moreover have "list_all well_typed_entry (d # ds) \<longrightarrow> length (row # rows) = length (d # ds)"
      using rows(3) by simp
    ultimately show ?thesis by blast
  qed
qed

lemma direct_deliverables:
  assumes "task_by_id st tid = Some task"
    and "getprop body ''deliverables'' = Some (JArr ds)"
  shows "\<exists>st1 r st2. task_deliverables st1 = task_deliverables st
            \<and> register_deliverables sy (t_id task) 0 ds st1 = (r, st2)
            \<and> task_deliverables (snd (complete_direct sy body tid st)) = task_deliverables st2"
proof -
  define target where "target = targetStatus (getprop body ''status'')"
  define newStatus where
    "newStatus = (if indexOf statusOrder target > indexOf statusOrder (t_status task)
                  then target else t_status task)"
  define st1 where
    "st1 = (if newStatus \<noteq> t_status task
            then update_task_status newStatus (now sy) (t_id task) st else st)"
  have one: "task_deliverables st1 = task_deliverables st"
    by (simp add: st1_def update_task_status_def)
  obtain r st2 where reg: "register_deliverables sy (t_id task) 0 ds st1 = (r, st2)"
    by (cases "register_deliverables sy (t_id task) 0 ds st1")
  have dv: "deliverables_of (getprop body ''deliverables'') = Inr ds"
    using assms(2) by (simp add: deliverables_of_def)
  have "task_deliverables (snd (complete_direct sy body tid st)) = task_deliverables st2"
    unfolding complete_direct_def Let_def assms(1) option.case
    unfolding target_def [symmetric]
    unfolding newStatus_def [symmetric]
    unfolding st1_def [symmetric]
    unfolding dv sum.case reg
    by (auto simp: insert_activity_def insert_event_def update_agent_status_def
        split: option.splits)
  with one reg show ?thesis by blast
qed

text \<open>
  C9. In the direct path, the rows appended to the table of deliverables are those of
  the first entries of the payload, in order, and each has as its type the entry's
  \<open>type\<close> when that is a non-empty string, with no check against the list
  \<open>file\<close>, \<open>url\<close>, \<open>artifact\<close>, and \<open>file\<close> when the field is absent, empty or falsy;
  when every entry is well typed there is one row for each entry.
\<close>

theorem deliverable_type_stored_verbatim:
  assumes "classify (getprop body ''task_id'') = Text tid"
    and "task_by_id st tid = Some task"
    and "getprop body ''deliverables'' = Some (JArr ds)"
  shows "\<exists>rows. task_deliverables (snd (completion_body sy body st)) = task_deliverables st @ rows
           \<and> map d_deliverable_type rows = map entry_type (take (length rows) ds)
           \<and> (list_all well_typed_entry ds \<longrightarrow> length rows = length ds)"
proof -
  from direct_deliverables [OF assms(2,3), of sy] obtain st1 r st2 where
    a: "task_deliverables st1 = task_deliverables st"
    and b: "register_deliverables sy (t_id task) 0 ds st1 = (r, st2)"
    and c: "task_deliverables (snd (complete_direct sy body tid st)) = task_deliverables st2"
    by blast
  from register_deliverables_rows [OF b] a c show ?thesis
    by (simp add: direct_body [OF assms(1)])
qed


theorem deliverable_type_stored_verbatim_witness:
  "classify (getprop (JObj [(''task_id'', JStr ''t0''),
        (''deliverables'', JArr [JObj [(''type'', JStr ''banana''), (''title'', JStr ''x'')],
                                 JObj [(''title'', JStr ''y'')],
                                 JObj [(''type'', JStr []), (''title'', JStr ''z''),
                                       (''path'', JStr ''/p'')]])]) ''task_id'') = Text ''t0''
   \<and> task_by_id store0 ''t0'' = Some task0
   \<and> list_all well_typed_entry
         [JObj [(''type'', JStr ''banana''), (''title'', JStr ''x'')],
          JObj [(''title'', JStr ''y'')],
          JObj [(''type'', JStr []), (''title'', JStr ''z''), (''path'', JStr ''/p'')]]
   \<and> map d_deliverable_type (task_deliverables (snd (completion_body sys0
         (JObj [(''task_id'', JStr ''t0''),
            (''deliverables'', JArr [JObj [(''type'', JStr ''banana''), (''title'', JStr ''x'')],
                                     JObj [(''title'', JStr ''y'')],
                                     JObj [(''type'', JStr []), (''title'', JStr ''z''),
                                           (''path'', JStr ''/p'')]])]) store0)))
       = [''banana'', ''file'', ''file'']"
proof -
  let ?ds = "[JObj [(''type'', JStr ''banana''), (''title'', JStr ''x'')],
              JObj [(''title'', JStr ''y'')],
              JObj [(''type'', JStr []), (''title'', JStr ''z''), (''path'', JStr ''/p'')]]"
  let ?b = "JObj [(''task_id'', JStr ''t0''), (''deliverables'', JArr ?ds)]"
  have c: "classify (getprop ?b ''task_id'') = Text ''t0''" by (simp add: getprop_def)
  have f: "task_by_id store0 ''t0'' = Some task0"
    by (simp add: task_by_id_def store0_def task0_def)
  have g: "getprop ?b ''deliverables'' = Some (JArr ?ds)" by (simp add: getprop_def)
  have w: "list_all well_typed_entry ?ds" by (simp add: well_typed_entry_def getprop_def)
  have e: "map entry_type ?ds = [''banana'', ''file'', ''file'']"
    by (simp add: entry_type_def getprop_def)
  have old: "task_deliverables store0 = []" by (simp add: store0_def)
  from deliverable_type_stored_verbatim [OF c f g, of sys0] w obtain rows where
    r: "task_deliverables (snd (completion_body sys0 ?b store0)) = task_deliverables store0 @ rows"
      "map d_deliverable_type rows = map entry_type (take (length rows) ?ds)"
      "length rows = length ?ds"
    by blast
  from r(2,3) e have "map d_deliverable_type rows = [''banana'', ''file'', ''file'']" by simp
  with r(1) old c f w show ?thesis by simp
qed

lemma latest_Some:
  "latest ts = Some t \<Longrightarrow> t \<in> set ts \<and> (\<forall>u\<in>set ts. t_updated_at u \<le> t_updated_at t)"
proof (induction ts arbitrary: t)
  case Nil
  then show ?case by simp
next
  case (Cons a ts)
  show ?case
  proof (cases "latest ts")
    case None
    then have "ts = []" by (cases ts) (auto split: option.splits if_splits)
    with Cons.prems show ?thesis by simp
  next
    case (Some u)
    from Cons.IH [OF Some] have u: "u \<in> set ts" "\<forall>v\<in>set ts. t_updated_at v \<le> t_updated_at u"
      by simp_all
    show ?thesis
    proof (cases "t_updated_at u \<le> t_updated_at a")
      case True
      with Cons.prems Some have "t = a" by simp
      with True u show ?thesis by (auto intro: order_trans)
    next
      case False
      with Cons.prems Some have "t = u" by simp
      with False u show ?thesis by auto
    qed
  qed
qed

lemma latest_None: "latest ts = None \<longleftrightarrow> ts = []"
  by (cases ts) (auto split: option.splits if_splits)

lemma legacy_body:
  assumes "classify (getprop body ''task_id'') = Falsy"
    and "classify (getprop body ''session_id'') = Text sid"
    and "classify (getprop body ''message'') = Text m"
  shows "completion_body sy body st =
           (case completionMatch m of
              None \<Rightarrow> (invalid_format, st)
            | Some captured \<Rightarrow> complete_session sy sid (trim captured) st)"
  using assms classify_Text_not_null [OF assms(2)]
  by (simp add: completion_body_def split: option.split)

text \<open>
  C5. A legacy payload (no \<open>task_id\<close>; \<open>session_id\<close> and \<open>message\<close> non-empty strings).
  A message without the marker gets 400 and the store is unchanged. With the marker: no
  active session of that identifier gets 404 and the store is unchanged; otherwise the
  tasks considered are those assigned to the session's agent with status \<open>assigned\<close> or
  \<open>in_progress\<close>; none gets 404 and the store is unchanged; otherwise one with the
  greatest \<open>updated_at\<close> among them is taken, its status is set to \<open>testing\<close> (the guard
  against \<open>testing\<close>, \<open>review\<close> and \<open>done\<close> always passes for such a task), one
  \<open>task_completed\<close> event is appended, the agent's status is set to \<open>standby\<close>, and the
  reply is 200. The marker is \<open>TASK_COMPLETE:\<close> in any case of its letters, anywhere in
  the message, followed by white space and at least one character before the end of the
  line; the summary of the event is that text, trimmed. So a message that ends with the
  marker, or with the marker and the line separator U+2028, has no marker; the summary
  stops at a line terminator, also U+2028; the white space after the marker is skipped
  and the white space at the end of the summary is trimmed, also U+00A0.
\<close>

theorem legacy_completion:
  assumes "classify (getprop body ''task_id'') = Falsy"
    and "classify (getprop body ''session_id'') = Text sid"
    and "classify (getprop body ''message'') = Text m"
  shows
    "(completionMatch m = None \<longrightarrow>
        completion_body sy body st =
          (Reply 400 (error_body
             ''Invalid completion message format. Expected: TASK_COMPLETE: [summary]''), st))
     \<and> (completionMatch m \<noteq> None
          \<and> find (\<lambda>s. s_openclaw_session_id s = sid \<and> s_status s = ''active'')
                (openclaw_sessions st) = None \<longrightarrow>
        completion_body sy body st =
          (Reply 404 (error_body ''Session not found or inactive''), st))
     \<and> (\<forall>captured session.
          completionMatch m = Some captured
          \<and> find (\<lambda>s. s_openclaw_session_id s = sid \<and> s_status s = ''active'')
                (openclaw_sessions st) = Some session \<longrightarrow>
          (active_tasks st (s_agent_id session) = [] \<longrightarrow>
             completion_body sy body st =
               (Reply 404 (error_body ''No active task found for this agent''), st))
          \<and> (active_tasks st (s_agent_id session) \<noteq> [] \<longrightarrow>
               (\<exists>task.
                  task \<in> set (tasks st)
                  \<and> t_assigned_agent_id task = Some (s_agent_id session)
                  \<and> (t_status task = ''assigned'' \<or> t_status task = ''in_progress'')
                  \<and> (\<forall>u \<in> set (active_tasks st (s_agent_id session)).
                        t_updated_at u \<le> t_updated_at task)
                  \<and> snd (completion_body sy body st) =
                      update_agent_status ''standby'' (now sy) (s_agent_id session)
                        (insert_event
                           \<lparr>e_id = uuidv4 sy 0, e_type = ''task_completed'',
                            e_agent_id = Some (s_agent_id session),
                            e_task_id = Some (t_id task),
                            e_message = name_or_null (assigned_agent_name st task)
                                        @ '' completed: '' @ trim captured,
                            e_created_at = now sy\<rparr>
                           (update_task_status ''testing'' (now sy) (t_id task) st))
                  \<and> (\<exists>r. fst (completion_body sy body st) = Reply 200 r))))
     \<and> completionMatch ''TASK_COMPLETE: Built it'' = Some ''Built it''
     \<and> completionMatch ''Status: task_complete:done'' = Some ''done''
     \<and> completionMatch ''I finished the task successfully!'' = None
     \<and> completionMatch ''TASK_COMPLETE:'' = None
     \<and> completionMatch (''TASK_COMPLETE:'' @ LINE_SEPARATOR) = None
     \<and> completionMatch (''TASK_COMPLETE: first line'' @ LINE_SEPARATOR @ ''second'') = Some ''first line''
     \<and> completionMatch (''TASK_COMPLETE: '' @ [CHR 0x0A] @ ''next line'') = Some ''next line''
     \<and> completionMatch (''TASK_COMPLETE: '' @ [CHR 0x0A]) = Some '' ''
     \<and> completionMatch (''TASK_COMPLETE:'' @ NBSP @ ''Built it'' @ NBSP) = Some (''Built it'' @ NBSP)
     \<and> trim (''Built it'' @ NBSP) = ''Built it''"
proof -
  note b = legacy_body [OF assms]
  have p1: "completionMatch m = None \<longrightarrow>
        completion_body sy body st =
          (Reply 400 (error_body
             ''Invalid completion message format. Expected: TASK_COMPLETE: [summary]''), st)"
    by (simp add: b invalid_format_def)
  have p2: "completionMatch m \<noteq> None
          \<and> find (\<lambda>s. s_openclaw_session_id s = sid \<and> s_status s = ''active'')
                (openclaw_sessions st) = None \<longrightarrow>
        completion_body sy body st =
          (Reply 404 (error_body ''Session not found or inactive''), st)"
    by (auto simp: b complete_session_def)
  have p3: "(active_tasks st (s_agent_id session) = [] \<longrightarrow>
             completion_body sy body st =
               (Reply 404 (error_body ''No active task found for this agent''), st))
          \<and> (active_tasks st (s_agent_id session) \<noteq> [] \<longrightarrow>
               (\<exists>task.
                  task \<in> set (tasks st)
                  \<and> t_assigned_agent_id task = Some (s_agent_id session)
                  \<and> (t_status task = ''assigned'' \<or> t_status task = ''in_progress'')
                  \<and> (\<forall>u \<in> set (active_tasks st (s_agent_id session)).
                        t_updated_at u \<le> t_updated_at task)
                  \<and> snd (completion_body sy body st) =
                      update_agent_status ''standby'' (now sy) (s_agent_id session)
                        (insert_event
                           \<lparr>e_id = uuidv4 sy 0, e_type = ''task_completed'',
                            e_agent_id = Some (s_agent_id session),
                            e_task_id = Some (t_id task),
                            e_message = name_or_null (assigned_agent_name st task)
                                        @ '' completed: '' @ trim captured,
                            e_created_at = now sy\<rparr>
                           (update_task_status ''testing'' (now sy) (t_id task) st))
                  \<and> (\<exists>r. fst (completion_body sy body st) = Reply 200 r)))"
    if cm: "completionMatch m = Some captured"
      and fs: "find (\<lambda>s. s_openclaw_session_id s = sid \<and> s_status s = ''active'')
                (openclaw_sessions st) = Some session"
    for captured session
  proof (cases "active_tasks st (s_agent_id session) = []")
    case True
    then have "latest (active_tasks st (s_agent_id session)) = None" by simp
    with True cm fs show ?thesis by (simp add: b complete_session_def)
  next
    case False
    then obtain task where lt: "latest (active_tasks st (s_agent_id session)) = Some task"
      by (auto simp: latest_None [symmetric])
    from latest_Some [OF lt] have
      mem: "task \<in> set (active_tasks st (s_agent_id session))"
      and mx: "\<forall>u \<in> set (active_tasks st (s_agent_id session)). t_updated_at u \<le> t_updated_at task"
      by simp_all
    from mem have
      t1: "task \<in> set (tasks st)"
      and t2: "t_assigned_agent_id task = Some (s_agent_id session)"
      and t3: "t_status task = ''assigned'' \<or> t_status task = ''in_progress''"
      by (simp_all add: active_tasks_def)
    from t3 have guard: "t_status task \<noteq> ''testing'' \<and> t_status task \<noteq> ''review''
                          \<and> t_status task \<noteq> ''done''"
      by auto
    have res: "snd (completion_body sy body st) =
                      update_agent_status ''standby'' (now sy) (s_agent_id session)
                        (insert_event
                           \<lparr>e_id = uuidv4 sy 0, e_type = ''task_completed'',
                            e_agent_id = Some (s_agent_id session),
                            e_task_id = Some (t_id task),
                            e_message = name_or_null (assigned_agent_name st task)
                                        @ '' completed: '' @ trim captured,
                            e_created_at = now sy\<rparr>
                           (update_task_status ''testing'' (now sy) (t_id task) st))"
      and rep: "\<exists>r. fst (completion_body sy body st) = Reply 200 r"
      using cm fs lt guard by (simp_all add: b complete_session_def Let_def)
    from False t1 t2 t3 mx res rep show ?thesis by blast
  qed
  have e1: "completionMatch ''TASK_COMPLETE: Built it'' = Some ''Built it''" by code_simp
  have e2: "completionMatch ''Status: task_complete:done'' = Some ''done''" by code_simp
  have e3: "completionMatch ''I finished the task successfully!'' = None" by code_simp
  have e4: "completionMatch ''TASK_COMPLETE:'' = None" by code_simp
  have e5: "completionMatch (''TASK_COMPLETE:'' @ LINE_SEPARATOR) = None" by code_simp
  have e6: "completionMatch (''TASK_COMPLETE: first line'' @ LINE_SEPARATOR @ ''second'') = Some ''first line''"
    by code_simp
  have e7: "completionMatch (''TASK_COMPLETE: '' @ [CHR 0x0A] @ ''next line'') = Some ''next line''"
    by code_simp
  have e8: "completionMatch (''TASK_COMPLETE: '' @ [CHR 0x0A]) = Some '' ''" by code_simp
  have e9: "completionMatch (''TASK_COMPLETE:'' @ NBSP @ ''Built it'' @ NBSP) = Some (''Built it'' @ NBSP)"
    by code_simp
  have e10: "trim (''Built it'' @ NBSP) = ''Built it''" by code_simp
  from p3 have p3': "\<forall>captured session.
          completionMatch m = Some captured
          \<and> find (\<lambda>s. s_openclaw_session_id s = sid \<and> s_status s = ''active'')
                (openclaw_sessions st) = Some session \<longrightarrow>
          (active_tasks st (s_agent_id session) = [] \<longrightarrow>
             completion_body sy body st =
               (Reply 404 (error_body ''No active task found for this agent''), st))
          \<and> (active_tasks st (s_agent_id session) \<noteq> [] \<longrightarrow>
               (\<exists>task.
                  task \<in> set (tasks st)
                  \<and> t_assigned_agent_id task = Some (s_agent_id session)
                  \<and> (t_status task = ''assigned'' \<or> t_status task = ''in_progress'')
                  \<and> (\<forall>u \<in> set (active_tasks st (s_agent_id session)).
                        t_updated_at u \<le> t_updated_at task)
                  \<and> snd (completion_body sy body st) =
                      update_agent_status ''standby'' (now sy) (s_agent_id session)
                        (insert_event
                           \<lparr>e_id = uuidv4 sy 0, e_type = ''task_completed'',
                            e_agent_id = Some (s_agent_id session),
                            e_task_id = Some (t_id task),
                            e_message = name_or_null (assigned_agent_name st task)
                                        @ '' completed: '' @ trim captured,
                            e_created_at = now sy\<rparr>
                           (update_task_status ''testing'' (now sy) (t_id task) st))
                  \<and> (\<exists>r. fst (completion_body sy body st) = Reply 200 r)))"
    by blast
  show ?thesis
    apply (intro conjI)
    apply (rule p1)
    apply (rule p2)
    apply (rule p3')
    apply (rule e1)
    apply (rule e2)
    apply (rule e3)
    apply (rule e4)
    apply (rule e5)
    apply (rule e6)
    apply (rule e7)
    apply (rule e8)
    apply (rule e9)
    apply (rule e10)
    done
qed


theorem legacy_completion_witness:
  "classify (getprop (JObj [(''session_id'', JStr ''mission-control-engineering''),
         (''message'', JStr ''TASK_COMPLETE: Built it'')]) ''task_id'') = Falsy
   \<and> classify (getprop (JObj [(''session_id'', JStr ''mission-control-engineering''),
         (''message'', JStr ''TASK_COMPLETE: Built it'')]) ''session_id'')
       = Text ''mission-control-engineering''
   \<and> classify (getprop (JObj [(''session_id'', JStr ''mission-control-engineering''),
         (''message'', JStr ''TASK_COMPLETE: Built it'')]) ''message'')
       = Text ''TASK_COMPLETE: Built it''
   \<and> completionMatch ''TASK_COMPLETE: Built it'' = Some ''Built it''
   \<and> find (\<lambda>s. s_openclaw_session_id s = ''mission-control-engineering'' \<and> s_status s = ''active'')
         (openclaw_sessions store0) = Some session0
   \<and> active_tasks store0 (s_agent_id session0) \<noteq> []
   \<and> (\<exists>task.
         task \<in> set (tasks store0)
         \<and> t_assigned_agent_id task = Some (s_agent_id session0)
         \<and> (t_status task = ''assigned'' \<or> t_status task = ''in_progress'')
         \<and> (\<forall>u \<in> set (active_tasks store0 (s_agent_id session0)).
               t_updated_at u \<le> t_updated_at task)
         \<and> snd (completion_body sys0
                  (JObj [(''session_id'', JStr ''mission-control-engineering''),
                         (''message'', JStr ''TASK_COMPLETE: Built it'')]) store0) =
             update_agent_status ''standby'' (now sys0) (s_agent_id session0)
               (insert_event
                  \<lparr>e_id = uuidv4 sys0 0, e_type = ''task_completed'',
                   e_agent_id = Some (s_agent_id session0),
                   e_task_id = Some (t_id task),
                   e_message = name_or_null (assigned_agent_name store0 task)
                               @ '' completed: '' @ trim ''Built it'',
                   e_created_at = now sys0\<rparr>
                  (update_task_status ''testing'' (now sys0) (t_id task) store0)))
   \<and> map t_status (tasks (snd (completion_body sys0
         (JObj [(''session_id'', JStr ''mission-control-engineering''),
                (''message'', JStr ''TASK_COMPLETE: Built it'')]) store0)))
       = [''assigned'', ''testing'', ''done'', ''review'']
   \<and> map a_status (agents (snd (completion_body sys0
         (JObj [(''session_id'', JStr ''mission-control-engineering''),
                (''message'', JStr ''TASK_COMPLETE: Built it'')]) store0))) = [''standby'']
   \<and> map e_message (events (snd (completion_body sys0
         (JObj [(''session_id'', JStr ''mission-control-engineering''),
                (''message'', JStr ''TASK_COMPLETE: Built it'')]) store0)))
       = [''Engineering completed: Built it'']
   \<and> completionMatch ''I finished the task successfully!'' = None
   \<and> completion_body sys0
         (JObj [(''session_id'', JStr ''mission-control-engineering''),
                (''message'', JStr ''I finished the task successfully!'')]) store0
       = (Reply 400 (error_body
            ''Invalid completion message format. Expected: TASK_COMPLETE: [summary]''), store0)
   \<and> completionMatch (''TASK_COMPLETE:'' @ LINE_SEPARATOR) = None
   \<and> completion_body sys0
         (JObj [(''session_id'', JStr ''mission-control-engineering''),
                (''message'', JStr (''TASK_COMPLETE:'' @ LINE_SEPARATOR))]) store0
       = (Reply 400 (error_body
            ''Invalid completion message format. Expected: TASK_COMPLETE: [summary]''), store0)
   \<and> completionMatch (''TASK_COMPLETE:'' @ NBSP @ ''Built it'' @ NBSP) = Some (''Built it'' @ NBSP)
   \<and> map t_status (tasks (snd (completion_body sys0
         (JObj [(''session_id'', JStr ''mission-control-engineering''),
                (''message'', JStr (''TASK_COMPLETE:'' @ NBSP @ ''Built it'' @ NBSP))]) store0)))
       = [''assigned'', ''testing'', ''done'', ''review'']
   \<and> map e_message (events (snd (completion_body sys0
         (JObj [(''session_id'', JStr ''mission-control-engineering''),
                (''message'', JStr (''TASK_COMPLETE:'' @ NBSP @ ''Built it'' @ NBSP))]) store0)))
       = [''Engineering completed: Built it'']"
proof -
  let ?sid = "''mission-control-engineering''"
  let ?good = "JObj [(''session_id'', JStr ?sid), (''message'', JStr ''TASK_COMPLETE: Built it'')]"
  let ?bad = "JObj [(''session_id'', JStr ?sid),
                    (''message'', JStr ''I finished the task successfully!'')]"
  have g1: "classify (getprop ?good ''task_id'') = Falsy"
    and g2: "classify (getprop ?good ''session_id'') = Text ?sid"
    and g3: "classify (getprop ?good ''message'') = Text ''TASK_COMPLETE: Built it''"
    and b1: "classify (getprop ?bad ''task_id'') = Falsy"
    and b2: "classify (getprop ?bad ''session_id'') = Text ?sid"
    and b3: "classify (getprop ?bad ''message'') = Text ''I finished the task successfully!''"
    by (simp_all add: getprop_def)
  let ?sep = "JObj [(''session_id'', JStr ?sid),
                    (''message'', JStr (''TASK_COMPLETE:'' @ LINE_SEPARATOR))]"
  let ?nb = "JObj [(''session_id'', JStr ?sid),
                   (''message'', JStr (''TASK_COMPLETE:'' @ NBSP @ ''Built it'' @ NBSP))]"
  have s1: "classify (getprop ?sep ''task_id'') = Falsy"
    and s2: "classify (getprop ?sep ''session_id'') = Text ?sid"
    and s3: "classify (getprop ?sep ''message'') = Text (''TASK_COMPLETE:'' @ LINE_SEPARATOR)"
    and n1: "classify (getprop ?nb ''task_id'') = Falsy"
    and n2: "classify (getprop ?nb ''session_id'') = Text ?sid"
    and n3: "classify (getprop ?nb ''message'') = Text (''TASK_COMPLETE:'' @ NBSP @ ''Built it'' @ NBSP)"
    by (simp_all add: getprop_def)
  have m3: "completionMatch (''TASK_COMPLETE:'' @ LINE_SEPARATOR) = None" by code_simp
  have m4: "completionMatch (''TASK_COMPLETE:'' @ NBSP @ ''Built it'' @ NBSP) = Some (''Built it'' @ NBSP)"
    by code_simp
  have tr4: "trim (''Built it'' @ NBSP) = ''Built it''" by code_simp
  have m1: "completionMatch ''TASK_COMPLETE: Built it'' = Some ''Built it''" by code_simp
  have m2: "completionMatch ''I finished the task successfully!'' = None" by code_simp
  have tr: "trim ''Built it'' = ''Built it''" by code_simp
  have fs: "find (\<lambda>s. s_openclaw_session_id s = ?sid \<and> s_status s = ''active'')
         (openclaw_sessions store0) = Some session0"
    by (simp add: store0_def session0_def)
  have at: "active_tasks store0 (s_agent_id session0) \<noteq> []"
    by (simp add: active_tasks_def store0_def session0_def task0_def)
  note good = legacy_completion [OF g1 g2 g3, of sys0 store0]
  note bad = legacy_completion [OF b1 b2 b3, of sys0 store0]
  note sep = legacy_completion [OF s1 s2 s3, of sys0 store0]
  from good m1 fs at have ex: "\<exists>task.
         task \<in> set (tasks store0)
         \<and> t_assigned_agent_id task = Some (s_agent_id session0)
         \<and> (t_status task = ''assigned'' \<or> t_status task = ''in_progress'')
         \<and> (\<forall>u \<in> set (active_tasks store0 (s_agent_id session0)).
               t_updated_at u \<le> t_updated_at task)
         \<and> snd (completion_body sys0 ?good store0) =
             update_agent_status ''standby'' (now sys0) (s_agent_id session0)
               (insert_event
                  \<lparr>e_id = uuidv4 sys0 0, e_type = ''task_completed'',
                   e_agent_id = Some (s_agent_id session0),
                   e_task_id = Some (t_id task),
                   e_message = name_or_null (assigned_agent_name store0 task)
                               @ '' completed: '' @ trim ''Built it'',
                   e_created_at = now sys0\<rparr>
                  (update_task_status ''testing'' (now sys0) (t_id task) store0))"
    by blast
  from bad m2 have r400: "completion_body sys0 ?bad store0
       = (Reply 400 (error_body
            ''Invalid completion message format. Expected: TASK_COMPLETE: [summary]''), store0)"
    by blast
  have ev: "map t_status (tasks (snd (completion_body sys0 ?good store0)))
              = [''assigned'', ''testing'', ''done'', ''review'']"
      "map a_status (agents (snd (completion_body sys0 ?good store0))) = [''standby'']"
      "map e_message (events (snd (completion_body sys0 ?good store0)))
              = [''Engineering completed: Built it'']"
    unfolding legacy_body [OF g1 g2 g3] complete_session_def m1 option.case Let_def tr
    by (simp_all add: webhook_defs example_defs)
  from sep m3 have s400: "completion_body sys0 ?sep store0
       = (Reply 400 (error_body
            ''Invalid completion message format. Expected: TASK_COMPLETE: [summary]''), store0)"
    by blast
  have nv: "map t_status (tasks (snd (completion_body sys0 ?nb store0)))
              = [''assigned'', ''testing'', ''done'', ''review'']"
      "map e_message (events (snd (completion_body sys0 ?nb store0)))
              = [''Engineering completed: Built it'']"
    unfolding legacy_body [OF n1 n2 n3] complete_session_def m4 option.case Let_def tr4
    by (simp_all add: webhook_defs example_defs)
  show ?thesis
    apply (intro conjI)
    apply (rule g1)
    apply (rule g2)
    apply (rule g3)
    apply (rule m1)
    apply (rule fs)
    apply (rule at)
    apply (rule ex)
    apply (rule ev(1))
    apply (rule ev(2))
    apply (rule ev(3))
    apply (rule m2)
    apply (rule r400)
    apply (rule m3)
    apply (rule s400)
    apply (rule m4)
    apply (rule nv(1))
    apply (rule nv(2))
    done
qed

section \<open>Dispatch, linking and the planning wait\<close>


lemmas example_defs2 =
  store0_def task0_def agent0_def session0_def sys0_def rt0_def env_open_def env_secret_def
  store_masters_def client0_def gw0_def world0_def world_masters_def

lemmas dispatch_defs =
  dispatch_POST_def dispatch_session_def dispatch_send_def dispatch_record_def task_by_id_def
  agent_by_id_def active_session_def otherOrchestrators_def update_task_status_def
  update_agent_status_def insert_event_def insert_activity_def insert_session_def
  internal_error_def error_body_def

text \<open>
  C4. A task assigned to a master agent, with at least one other master agent of the
  task's workspace that is not offline: whatever the client and the state of the gateway,
  the reply is 409, its list \<open>otherOrchestrators\<close> holds exactly these agents (in table
  order), and the world is returned as it was: no call on the gateway, no write to the
  store, nothing broadcast.
\<close>

theorem dispatch_conflict:
  assumes "task_by_id (w_store w) i = Some task"
    and "t_assigned_agent_id task = Some aid" and "aid \<noteq> []"
    and "agent_by_id (w_store w) aid = Some agent"
    and "a_is_master agent"
    and "\<exists>a \<in> set (agents (w_store w)).
           a_is_master a \<and> a_id a \<noteq> a_id agent
           \<and> a_workspace_id a = t_workspace_id task \<and> a_status a \<noteq> ''offline''"
  shows "\<exists>body. dispatch_POST cl ev sy i w = (Reply 409 body, w)
           \<and> getprop body ''otherOrchestrators'' =
               Some (JArr (map orchestrator_json
                 (filter (\<lambda>a. a_is_master a \<and> a_id a \<noteq> a_id agent
                              \<and> a_workspace_id a = t_workspace_id task
                              \<and> a_status a \<noteq> ''offline'')
                    (agents (w_store w)))))"
proof -
  let ?others = "otherOrchestrators (w_store w) agent task"
  from assms(6) have ne: "?others \<noteq> []"
    by (auto simp: otherOrchestrators_def filter_empty_conv)
  have "dispatch_POST cl ev sy i w = (Reply 409 (conflict_body ?others), w)"
    using assms(1-5) ne by (simp add: dispatch_POST_def)
  moreover have "getprop (conflict_body ?others) ''otherOrchestrators'' =
                   Some (JArr (map orchestrator_json ?others))"
    by (simp add: conflict_body_def getprop_def)
  ultimately show ?thesis by (simp add: otherOrchestrators_def)
qed

theorem dispatch_conflict_witness:
  "task_by_id (w_store world_masters) ''t9'' = Some (tasks store_masters ! 4)
   \<and> t_assigned_agent_id (tasks store_masters ! 4) = Some ''m1'' \<and> ''m1'' \<noteq> []
   \<and> agent_by_id (w_store world_masters) ''m1'' = Some (agents store_masters ! 1)
   \<and> a_is_master (agents store_masters ! 1)
   \<and> a_is_master (agents store_masters ! 2)
   \<and> a_id (agents store_masters ! 2) \<noteq> a_id (agents store_masters ! 1)
   \<and> a_workspace_id (agents store_masters ! 2) = t_workspace_id (tasks store_masters ! 4)
   \<and> a_status (agents store_masters ! 2) \<noteq> ''offline''
   \<and> (\<exists>body. dispatch_POST client0 env_open sys0 ''t9'' world_masters = (Reply 409 body, world_masters)
         \<and> getprop body ''otherOrchestrators'' =
             Some (JArr [JObj [(''id'', JStr ''m2''), (''name'', JStr ''Delta''),
                               (''role'', JStr ''orchestrator'')]]))"
proof -
  let ?task = "tasks store_masters ! 4"
  let ?agent = "agents store_masters ! 1"
  let ?other = "agents store_masters ! 2"
  have a1: "task_by_id (w_store world_masters) ''t9'' = Some ?task"
    by (simp add: task_by_id_def example_defs2)
  have a2: "t_assigned_agent_id ?task = Some ''m1''" by (simp add: example_defs2)
  have a3: "''m1'' \<noteq> []" by simp
  have a4: "agent_by_id (w_store world_masters) ''m1'' = Some ?agent"
    by (simp add: agent_by_id_def example_defs2)
  have a5: "a_is_master ?agent" by (simp add: example_defs2)
  have o: "a_is_master ?other" "a_id ?other \<noteq> a_id ?agent"
    "a_workspace_id ?other = t_workspace_id ?task" "a_status ?other \<noteq> ''offline''"
    by (simp_all add: example_defs2)
  have mem: "?other \<in> set (agents (w_store world_masters))"
    by (simp add: example_defs2)
  from mem o have a6: "\<exists>a \<in> set (agents (w_store world_masters)).
           a_is_master a \<and> a_id a \<noteq> a_id ?agent
           \<and> a_workspace_id a = t_workspace_id ?task \<and> a_status a \<noteq> ''offline''"
    by blast
  have f: "map orchestrator_json
             (filter (\<lambda>a. a_is_master a \<and> a_id a \<noteq> a_id ?agent
                          \<and> a_workspace_id a = t_workspace_id ?task \<and> a_status a \<noteq> ''offline'')
                (agents (w_store world_masters)))
           = [JObj [(''id'', JStr ''m2''), (''name'', JStr ''Delta''),
                    (''role'', JStr ''orchestrator'')]]"
    by (simp add: example_defs2 orchestrator_json_def)
  from dispatch_conflict [OF a1 a2 a3 a4 a5 a6, of client0 env_open sys0]
  have "\<exists>body. dispatch_POST client0 env_open sys0 ''t9'' world_masters = (Reply 409 body, world_masters)
         \<and> getprop body ''otherOrchestrators'' =
             Some (JArr [JObj [(''id'', JStr ''m2''), (''name'', JStr ''Delta''),
                               (''role'', JStr ''orchestrator'')]])"
    unfolding f .
  with a1 a2 a3 a4 a5 o show ?thesis by blast
qed

lemma dispatch_record_tasks:
  "tasks (w_store (snd (dispatch_record sy i task agent session w))) =
     map (\<lambda>t. if t_id t = i then t\<lparr>t_status := ''in_progress'', t_updated_at := now sy\<rparr> else t)
       (tasks (w_store w))"
  by (simp add: dispatch_record_def Let_def update_task_status_def update_agent_status_def
      insert_event_def insert_activity_def)

lemma dispatch_send_tasks:
  assumes "dispatch_send cl ev sy i task agent session w = (Reply 200 body, w')"
  shows "tasks (w_store w') =
     map (\<lambda>t. if t_id t = i then t\<lparr>t_status := ''in_progress'', t_updated_at := now sy\<rparr> else t)
       (tasks (w_store w))"
proof -
  obtain r g where cs: "chat_send cl (''agent:main:'' @ s_openclaw_session_id session)
             (taskMessage ev task)
             (''dispatch-'' @ t_id task @ ''-'' @ decimal (Date_now sy 0)) (w_gateway w) = (r, g)"
    by (cases "chat_send cl (''agent:main:'' @ s_openclaw_session_id session)
             (taskMessage ev task)
             (''dispatch-'' @ t_id task @ ''-'' @ decimal (Date_now sy 0)) (w_gateway w)")
  show ?thesis
  proof (cases r)
    case (Some err)
    with assms cs show ?thesis by (simp add: dispatch_send_def internal_error_def)
  next
    case None
    with assms cs have "dispatch_record sy i task agent session (w\<lparr>w_gateway := g\<rparr>)
                          = (Reply 200 body, w')"
      by (simp add: dispatch_send_def)
    then have "w' = snd (dispatch_record sy i task agent session (w\<lparr>w_gateway := g\<rparr>))" by simp
    then show ?thesis by (simp add: dispatch_record_tasks)
  qed
qed

lemma dispatch_session_tasks:
  assumes "dispatch_session cl ev sy i task agent w = (Reply 200 body, w')"
  shows "tasks (w_store w') =
     map (\<lambda>t. if t_id t = i then t\<lparr>t_status := ''in_progress'', t_updated_at := now sy\<rparr> else t)
       (tasks (w_store w))"
proof (cases "active_session (w_store w) (a_id agent)")
  case (Some session)
  with assms have "dispatch_send cl ev sy i task agent session w = (Reply 200 body, w')"
    by (simp add: dispatch_session_def)
  then show ?thesis by (rule dispatch_send_tasks)
next
  case None
  let ?st1 = "insert_session
                \<lparr>s_id = uuidv4 sy 0, s_agent_id = a_id agent,
                 s_openclaw_session_id = sessionName (a_name agent),
                 s_channel = ''mission-control'', s_status = ''active'',
                 s_created_at = now sy, s_updated_at = now sy\<rparr> (w_store w)"
  let ?st2 = "insert_event
                \<lparr>e_id = uuidv4 sy 1, e_type = ''agent_status_changed'',
                 e_agent_id = Some (a_id agent), e_task_id = None,
                 e_message = a_name agent @ '' session created'',
                 e_created_at = now sy\<rparr> ?st1"
  have same: "tasks ?st2 = tasks (w_store w)"
    by (simp add: insert_event_def insert_session_def)
  show ?thesis
  proof (cases "find (\<lambda>s. s_id s = uuidv4 sy 0) (openclaw_sessions ?st1)")
    case n: None
    with assms None show ?thesis by (simp add: dispatch_session_def Let_def)
  next
    case (Some session)
    with assms None
    have "dispatch_send cl ev sy i task agent session (w\<lparr>w_store := ?st2\<rparr>) = (Reply 200 body, w')"
      by (simp add: dispatch_session_def Let_def)
    from dispatch_send_tasks [OF this] same show ?thesis by simp
  qed
qed

text \<open>
  C1, as the code has it. A dispatch that succeeds (reply 200) leaves every row of the
  task with status \<open>in_progress\<close> and the time of the request, whatever the status was:
  the update is unconditional. The example below is a task in \<open>review\<close> that a successful
  dispatch moves back to \<open>in_progress\<close>.
\<close>

theorem dispatch_sets_in_progress:
  assumes "dispatch_POST cl ev sy i w = (Reply 200 body, w')"
  shows "tasks (w_store w') =
     map (\<lambda>t. if t_id t = i then t\<lparr>t_status := ''in_progress'', t_updated_at := now sy\<rparr> else t)
       (tasks (w_store w))"
proof -
  from assms obtain task aid agent where
    "dispatch_session cl ev sy i task agent w = (Reply 200 body, w')
     \<or> (\<exists>g. dispatch_session cl ev sy i task agent (w\<lparr>w_gateway := g\<rparr>) = (Reply 200 body, w'))"
    by (auto simp: dispatch_POST_def split: option.splits if_splits prod.splits)
  then show ?thesis
    by (auto dest: dispatch_session_tasks)
qed


theorem dispatch_sets_in_progress_witness:
  "dispatch_POST client0 env_open sys0 ''t2'' world0 =
     (Reply 200
        (JObj [(''success'', JBool True), (''task_id'', JStr ''t2''), (''agent_id'', JStr ''a1''),
               (''session_id'', JStr ''mission-control-engineering''),
               (''message'', JStr ''Task dispatched to agent'')]),
      snd (dispatch_POST client0 env_open sys0 ''t2'' world0))
   \<and> map t_status (tasks (w_store world0)) = [''assigned'', ''in_progress'', ''done'', ''review'']
   \<and> map t_status (tasks (w_store (snd (dispatch_POST client0 env_open sys0 ''t2'' world0))))
       = [''assigned'', ''in_progress'', ''in_progress'', ''review'']"
proof -
  let ?r = "dispatch_POST client0 env_open sys0 ''t2'' world0"
  have "fst ?r =
     Reply 200
        (JObj [(''success'', JBool True), (''task_id'', JStr ''t2''), (''agent_id'', JStr ''a1''),
               (''session_id'', JStr ''mission-control-engineering''),
               (''message'', JStr ''Task dispatched to agent'')])"
    by (simp add: dispatch_defs example_defs2 Let_def)
  then have eq: "?r =
     (Reply 200
        (JObj [(''success'', JBool True), (''task_id'', JStr ''t2''), (''agent_id'', JStr ''a1''),
               (''session_id'', JStr ''mission-control-engineering''),
               (''message'', JStr ''Task dispatched to agent'')]), snd ?r)"
    by (metis prod.collapse)
  have before: "map t_status (tasks (w_store world0))
                  = [''assigned'', ''in_progress'', ''done'', ''review'']"
    by (simp add: example_defs2)
  have ids: "map t_id (tasks (w_store world0)) = [''t0'', ''t1'', ''t2'', ''t3'']"
    by (simp add: example_defs2)
  have "map t_status (tasks (w_store (snd ?r)))
          = [''assigned'', ''in_progress'', ''in_progress'', ''review'']"
    unfolding dispatch_sets_in_progress [OF eq]
    by (simp add: example_defs2)
  with eq before show ?thesis by blast
qed

text \<open>
  C1, as the claim states it, fails: the task \<open>t3\<close> of the example store is in
  \<open>review\<close>, its dispatch succeeds, and its status is \<open>in_progress\<close> afterwards.
\<close>

theorem dispatch_regression_counterexample:
  "task_by_id (w_store world0) ''t3'' = Some (tasks store0 ! 3)
   \<and> t_status (tasks store0 ! 3) = ''review''
   \<and> fst (dispatch_POST client0 env_open sys0 ''t3'' world0) =
       Reply 200
         (JObj [(''success'', JBool True), (''task_id'', JStr ''t3''), (''agent_id'', JStr ''a1''),
                (''session_id'', JStr ''mission-control-engineering''),
                (''message'', JStr ''Task dispatched to agent'')])
   \<and> map t_status (tasks (w_store (snd (dispatch_POST client0 env_open sys0 ''t3'' world0))))
       = [''assigned'', ''in_progress'', ''done'', ''in_progress'']
   \<and> task_by_id (w_store (snd (dispatch_POST client0 env_open sys0 ''t3'' world0))) ''t3''
       \<noteq> Some (tasks store0 ! 3)"
  by (simp add: dispatch_defs example_defs2 Let_def)

lemmas link_defs =
  link_POST_def link_verify_def link_store_def unlink_DELETE_def deactivate_session_def
  agent_by_id_def active_session_def insert_event_def insert_session_def session_json_def
  error_body_def internal_error_def

text \<open>
  C7. For an existing agent: linking while an active session of the agent exists gives
  409 with that session in the body and the world unchanged (no session created, no call
  on the gateway); unlinking without an active session gives 404 and the store
  unchanged; unlinking with one gives 200, and the table of sessions afterwards has the
  same rows, those of the session's identifier with status \<open>inactive\<close> and the time of
  the request, the others as they were.
\<close>

theorem link_unlink:
  "(agent_by_id (w_store w) i = Some agent \<and> active_session (w_store w) i = Some s \<longrightarrow>
      link_POST cl sy i request_body w =
        (Reply 409 (JObj [(''error'', JStr ''Agent is already linked to an OpenClaw session''),
                          (''session'', session_json s)]), w))
   \<and> (agent_by_id st i = Some agent \<and> active_session st i = None \<longrightarrow>
      unlink_DELETE sy i st =
        (Reply 404 (error_body ''Agent is not linked to an OpenClaw session''), st))
   \<and> (agent_by_id st i = Some agent \<and> active_session st i = Some s \<longrightarrow>
      fst (unlink_DELETE sy i st) = Reply 200 (JObj [(''linked'', JBool False), (''success'', JBool True)])
      \<and> openclaw_sessions (snd (unlink_DELETE sy i st)) =
          map (\<lambda>x. if s_id x = s_id s then x\<lparr>s_status := ''inactive'', s_updated_at := now sy\<rparr> else x)
            (openclaw_sessions st)
      \<and> length (openclaw_sessions (snd (unlink_DELETE sy i st))) = length (openclaw_sessions st)
      \<and> map s_id (openclaw_sessions (snd (unlink_DELETE sy i st))) = map s_id (openclaw_sessions st))"
proof -
  have ids: "map s_id (map (\<lambda>x. if s_id x = k then x\<lparr>s_status := ''inactive'', s_updated_at := t\<rparr> else x) xs)
               = map s_id xs" for k t xs
    by (induction xs) auto
  show ?thesis
    by (auto simp: link_POST_def unlink_DELETE_def deactivate_session_def insert_event_def ids)
qed

theorem link_unlink_witness:
  "agent_by_id (w_store world0) ''a1'' = Some agent0
   \<and> active_session (w_store world0) ''a1'' = Some session0
   \<and> link_POST client0 sys0 ''a1'' None world0 =
       (Reply 409 (JObj [(''error'', JStr ''Agent is already linked to an OpenClaw session''),
                         (''session'', session_json session0)]), world0)
   \<and> agent_by_id store_masters ''m1'' = Some (agents store_masters ! 1)
   \<and> active_session store_masters ''m1'' = None
   \<and> unlink_DELETE sys0 ''m1'' store_masters =
       (Reply 404 (error_body ''Agent is not linked to an OpenClaw session''), store_masters)
   \<and> agent_by_id store0 ''a1'' = Some agent0
   \<and> active_session store0 ''a1'' = Some session0
   \<and> fst (unlink_DELETE sys0 ''a1'' store0) =
       Reply 200 (JObj [(''linked'', JBool False), (''success'', JBool True)])
   \<and> openclaw_sessions (snd (unlink_DELETE sys0 ''a1'' store0)) =
       [session0\<lparr>s_status := ''inactive'', s_updated_at := now sys0\<rparr>]"
proof -
  have a: "agent_by_id (w_store world0) ''a1'' = Some agent0"
    and b: "active_session (w_store world0) ''a1'' = Some session0"
    and c: "agent_by_id store_masters ''m1'' = Some (agents store_masters ! 1)"
    and d: "active_session store_masters ''m1'' = None"
    and e: "agent_by_id store0 ''a1'' = Some agent0"
    and f: "active_session store0 ''a1'' = Some session0"
    by (simp_all add: agent_by_id_def active_session_def example_defs2)
  have g: "openclaw_sessions store0 = [session0]" by (simp add: store0_def)
  from link_unlink [where w = world0 and i = "''a1''" and agent = agent0 and s = session0
      and cl = client0 and sy = sys0 and request_body = None] a b
  have r1: "link_POST client0 sys0 ''a1'' None world0 =
       (Reply 409 (JObj [(''error'', JStr ''Agent is already linked to an OpenClaw session''),
                         (''session'', session_json session0)]), world0)"
    by blast
  from link_unlink [where st = store_masters and i = "''m1''"
      and agent = "agents store_masters ! 1" and sy = sys0] c d
  have r2: "unlink_DELETE sys0 ''m1'' store_masters =
       (Reply 404 (error_body ''Agent is not linked to an OpenClaw session''), store_masters)"
    by blast
  from link_unlink [where st = store0 and i = "''a1''" and agent = agent0 and s = session0
      and sy = sys0] e f
  have r3: "fst (unlink_DELETE sys0 ''a1'' store0) =
       Reply 200 (JObj [(''linked'', JBool False), (''success'', JBool True)])"
    and r4: "openclaw_sessions (snd (unlink_DELETE sys0 ''a1'' store0)) =
       map (\<lambda>x. if s_id x = s_id session0
                 then x\<lparr>s_status := ''inactive'', s_updated_at := now sys0\<rparr> else x)
         (openclaw_sessions store0)"
    by blast+
  from r4 have r5: "openclaw_sessions (snd (unlink_DELETE sys0 ''a1'' store0)) =
       [session0\<lparr>s_status := ''inactive'', s_updated_at := now sys0\<rparr>]"
    by (simp add: g)
  from a b r1 c d r2 e f r3 r5 show ?thesis by blast
qed




lemmas planning_defs =
  planning_POST_def planning_wait_def ensure_connected_def getMessagesFromOpenClaw_def
  assistant_texts_def still_waiting_def task_by_id_def start_planning_def


end
